theory Spec2Isabelle
  imports Main
begin

section \<open>Move notation codec of the chess board (movestring.cpp)\<close>

text \<open>
  The file \<^verbatim>\<open>projects/lib/src/chessboard/movestring.cpp\<close> implements six member
  functions of the class \<^verbatim>\<open>Chess::Board\<close>: the dispatchers \<^verbatim>\<open>moveString\<close> and
  \<^verbatim>\<open>moveFromString\<close>, the two encoders \<^verbatim>\<open>longAlgebraicMoveString\<close> and
  \<^verbatim>\<open>sanMoveString\<close>, and the two decoders \<^verbatim>\<open>moveFromLongAlgebraicString\<close> and
  \<^verbatim>\<open>moveFromSanString\<close>. The class declaration (\<^verbatim>\<open>chessboard.h\<close>), the move
  generator, make/undo and the lexicon (\<^verbatim>\<open>notation.h\<close>) are not part of the
  source at hand; they enter the embedding as parameters, collected in the record
  \<open>externals\<close>.
\<close>

subsection \<open>Data\<close>

text \<open>\<^verbatim>\<open>Chess::Square\<close>: its members \<^verbatim>\<open>file\<close> and \<^verbatim>\<open>rank\<close>, both
  \<^verbatim>\<open>int\<close> and \<open>-1\<close> when unset (\<open>file\<close> is a keyword of Isabelle, hence the prefix).\<close>

record square =
  sq_file :: int
  sq_rank :: int

text \<open>\<^verbatim>\<open>Chess::Move\<close>, read through its four accessors.\<close>

record move =
  sourceSquare :: int
  targetSquare :: int
  promotion :: int
  castlingSide :: int

datatype MoveNotation = StandardAlgebraic | LongAlgebraic

text \<open>
  The members of \<^verbatim>\<open>Board\<close> that the six functions read. \<^verbatim>\<open>m_squares\<close>,
  \<^verbatim>\<open>m_kingSquare\<close> and \<^verbatim>\<open>m_castleTarget\<close> are arrays indexed by \<^verbatim>\<open>int\<close>; they
  are total lookups here (a read outside the array is undefined in the source and is
  not modelled). The record is extensible: whatever else the class keeps, such as the
  history that \<^verbatim>\<open>undoMove\<close> pops, lives in the extension.
\<close>

record board =
  m_squares :: "int \<Rightarrow> int"
  m_sign :: int
  m_side :: int
  m_isRandom :: bool
  m_enpassantSquare :: int
  m_kingSquare :: "int \<Rightarrow> int"
  m_castleTarget :: "int \<Rightarrow> int \<Rightarrow> int"
  m_width :: int
  m_height :: int

text \<open>
  Everything the six functions call or name that is declared elsewhere: the
  enumerators \<^verbatim>\<open>NoPiece\<close>, \<^verbatim>\<open>Pawn\<close>, \<^verbatim>\<open>King\<close>, \<^verbatim>\<open>QueenSide\<close>, \<^verbatim>\<open>KingSide\<close>,
  the legality engine (\<^verbatim>\<open>legalMoves\<close>, \<^verbatim>\<open>makeMove\<close>, \<^verbatim>\<open>undoMove\<close>, \<^verbatim>\<open>inCheck\<close>),
  the index conversions (\<^verbatim>\<open>chessSquare\<close>, \<^verbatim>\<open>squareIndex\<close>), the lexicon
  \<^verbatim>\<open>Notation::squareString\<close>, \<^verbatim>\<open>Notation::square\<close> (here \<open>squareOf\<close>),
  \<^verbatim>\<open>Notation::pieceChar\<close>, \<^verbatim>\<open>Notation::pieceCode\<close>, and the case conversions of
  \<^verbatim>\<open>QChar\<close>. \<^verbatim>\<open>legalMoves\<close> and \<^verbatim>\<open>inCheck\<close> are queries: they return a value and
  leave the board as it is.
\<close>

record 'x externals =
  NoPiece :: int
  Pawn :: int
  King :: int
  QueenSide :: int
  KingSide :: int
  legalMoves :: "'x board_scheme \<Rightarrow> move list"
  makeMove :: "'x board_scheme \<Rightarrow> move \<Rightarrow> 'x board_scheme"
  undoMove :: "'x board_scheme \<Rightarrow> 'x board_scheme"
  inCheck :: "'x board_scheme \<Rightarrow> int \<Rightarrow> bool"
  chessSquare :: "'x board_scheme \<Rightarrow> int \<Rightarrow> square"
  squareIndex :: "'x board_scheme \<Rightarrow> square \<Rightarrow> int"
  squareString :: "square \<Rightarrow> string"
  squareOf :: "string \<Rightarrow> square"
  pieceChar :: "int \<Rightarrow> char"
  pieceCode :: "char \<Rightarrow> int"
  toUpper :: "char \<Rightarrow> char"
  toLower :: "char \<Rightarrow> char"

text \<open>
  Modelled from the spec: \<^verbatim>\<open>Board::isValidSquare\<close>, declared in the missing
  \<^verbatim>\<open>chessboard.h\<close>. The spec: a square is valid iff both coordinates are in range,
  bounded by the board's width and height.
\<close>

definition isValidSquare :: "'x board_scheme \<Rightarrow> square \<Rightarrow> bool" where
  "isValidSquare b sq \<longleftrightarrow>
     0 \<le> sq_file sq \<and> sq_file sq < m_width b \<and> 0 \<le> sq_rank sq \<and> sq_rank sq < m_height b"

text \<open>
  Modelled from the spec: the constructor \<^verbatim>\<open>Move(source, target, promotion,
  castlingSide)\<close>, whose default arguments are declared in the missing header. With two
  arguments the move has no promotion and no castling side; the code tests the
  latter as \<open>-1\<close>.
\<close>

definition Move :: "int \<Rightarrow> int \<Rightarrow> int \<Rightarrow> int \<Rightarrow> move" where
  "Move s t p c = \<lparr>sourceSquare = s, targetSquare = t, promotion = p, castlingSide = c\<rparr>"

definition Move2 :: "'x externals \<Rightarrow> int \<Rightarrow> int \<Rightarrow> move" where
  "Move2 E s t = Move s t (NoPiece E) (- 1)"

text \<open>
  Strings are \<^verbatim>\<open>QString\<close>s restricted to 8-bit characters. \<^verbatim>\<open>mid\<close> is
  \<^verbatim>\<open>QString::mid(pos, n)\<close>; \<^verbatim>\<open>toAscii\<close> yields a \<^verbatim>\<open>char\<close>, read as a signed
  byte when it enters integer arithmetic; \<^verbatim>\<open>isDigit\<close> holds of the ten decimal
  digits.
\<close>

definition mid :: "string \<Rightarrow> nat \<Rightarrow> nat \<Rightarrow> string" where
  "mid s pos n = take n (drop pos s)"

definition toAscii :: "char \<Rightarrow> int" where
  "toAscii c = (let n = of_char c in if n < 128 then n else n - 256)"

definition isDigit :: "char \<Rightarrow> bool" where
  "isDigit c \<longleftrightarrow> (48::int) \<le> of_char c \<and> of_char c \<le> (57::int)"

subsection \<open>Long algebraic notation\<close>

definition longAlgebraicMoveString :: "'x externals \<Rightarrow> 'x board_scheme \<Rightarrow> move \<Rightarrow> string" where
  "longAlgebraicMoveString E b mv =
     (let source = chessSquare E b (sourceSquare mv);
          target = chessSquare E b (targetSquare mv);
          str = squareString E source @ squareString E target
      in if promotion mv \<noteq> NoPiece E
         then str @ [toLower E (pieceChar E (promotion mv))]
         else str)"

definition moveFromLongAlgebraicString :: "'x externals \<Rightarrow> 'x board_scheme \<Rightarrow> string \<Rightarrow> move" where
  "moveFromLongAlgebraicString E b str =
     (if length str < 4 then Move2 E 0 0
      else
        let sourceSq = squareOf E (mid str 0 2);
            targetSq = squareOf E (mid str 2 2)
        in if \<not> isValidSquare b sourceSq \<or> \<not> isValidSquare b targetSq then Move2 E 0 0
           else
             let promo = (if length str > 4 then pieceCode E (toUpper E (str ! 4))
                          else NoPiece E)
             in if length str > 4 \<and> promo = NoPiece E then Move2 E 0 0
                else
                  let source = squareIndex E b sourceSq;
                      target = squareIndex E b targetSq;
                      cside = (if m_squares b source * m_sign b = King E
                               then (let diff = target - source
                                     in if diff = - 2 \<or> diff = - 3 then QueenSide E
                                        else if diff = 2 \<or> diff = 3 then KingSide E
                                        else - 1)
                               else - 1)
                  in Move source target promo cside)"

subsection \<open>Standard algebraic notation: encoding\<close>

text \<open>
  The loop of lines 102--115 over the legal moves; its state is the pair
  \<open>(needFile, needRank)\<close>.
\<close>

fun disambiguate ::
  "'x externals \<Rightarrow> 'x board_scheme \<Rightarrow> int \<Rightarrow> int \<Rightarrow> int \<Rightarrow> square \<Rightarrow> move list \<Rightarrow> bool \<times> bool \<Rightarrow> bool \<times> bool"
where
  "disambiguate E b source target piece sq [] need = need"
| "disambiguate E b source target piece sq (it # moves) (needFile, needRank) =
     (let source2 = sourceSquare it
      in if source2 = source then disambiguate E b source target piece sq moves (needFile, needRank)
         else if m_squares b source2 * m_sign b \<noteq> piece
         then disambiguate E b source target piece sq moves (needFile, needRank)
         else if targetSquare it = target
         then (let square2 = chessSquare E b source2
               in if sq_file square2 \<noteq> sq_file sq
                  then disambiguate E b source target piece sq moves (True, needRank)
                  else if sq_rank square2 \<noteq> sq_rank sq
                  then disambiguate E b source target piece sq moves (needFile, True)
                  else disambiguate E b source target piece sq moves (needFile, needRank))
         else disambiguate E b source target piece sq moves (needFile, needRank))"

text \<open>
  Lines 117--135, shared by the pawn, king and piece branches: source file, source
  rank, capture mark, target square, promotion, check or mate mark. The character
  \<open>0\<close> stands for "no mark", as in the source.
\<close>

definition sanTail ::
  "'x externals \<Rightarrow> 'x board_scheme \<Rightarrow> move \<Rightarrow> square \<Rightarrow> string \<Rightarrow> bool \<Rightarrow> bool \<Rightarrow> int \<Rightarrow> char \<Rightarrow> string"
where
  "sanTail E b mv sq str needFile needRank capture checkOrMate =
     (let str1 = (if needFile then str @ [char_of (97 + sq_file sq)] else str);
          str2 = (if needRank then str1 @ [char_of (49 + sq_rank sq)] else str1);
          str3 = (if capture \<noteq> NoPiece E then str2 @ [CHR ''x''] else str2);
          str4 = str3 @ squareString E (chessSquare E b (targetSquare mv));
          str5 = (if promotion mv \<noteq> 0
                  then str4 @ [CHR ''=''] @ [pieceChar E (promotion mv)] else str4)
      in if checkOrMate \<noteq> CHR 0x00 then str5 @ [checkOrMate] else str5)"

text \<open>
  \<^verbatim>\<open>sanMoveString\<close> makes the move, probes check and mate, takes the move back, and
  composes the string on the board it then has. The result is the string and that
  board. The piece, the captured piece and the source square (lines 63--65) are read
  before the move is made; the en-passant square, the sign and the legal moves
  (lines 81--115) are read after it has been taken back.
\<close>

definition sanMoveString :: "'x externals \<Rightarrow> 'x board_scheme \<Rightarrow> move \<Rightarrow> string \<times> 'x board_scheme" where
  "sanMoveString E b0 mv =
     (let source = sourceSquare mv;
          target = targetSquare mv;
          piece = m_squares b0 source * m_sign b0;
          capture = m_squares b0 target;
          sq = chessSquare E b0 source;
          b1 = makeMove E b0 mv;
          checkOrMate = (if inCheck E b1 (m_side b1)
                         then (if legalMoves E b1 = [] then CHR ''#'' else CHR ''+'')
                         else CHR 0x00);
          b = undoMove E b1
      in if piece = Pawn E
         then (let capture1 = (if target = m_enpassantSquare b then - Pawn E * m_sign b
                               else capture);
                   needFile = (capture1 \<noteq> NoPiece E)
               in (sanTail E b mv sq [] needFile False capture1 checkOrMate, b))
         else if piece = King E
         then (let cside = castlingSide mv
               in if cside \<noteq> - 1
                  then (let str = (if cside = QueenSide E then ''O-O-O'' else ''O-O'')
                        in (if checkOrMate \<noteq> CHR 0x00 then str @ [checkOrMate] else str, b))
                  else (sanTail E b mv sq [pieceChar E piece] False False capture checkOrMate, b))
         else (let need = disambiguate E b source target piece sq (legalMoves E b) (False, False)
               in (sanTail E b mv sq [pieceChar E piece] (fst need) (snd need) capture
                     checkOrMate, b)))"

subsection \<open>Standard algebraic notation: decoding\<close>

text \<open>
  Lines 177--181: check, mate, strong-move and blunder marks are chopped off the end
  of the string, one at a time.
\<close>

fun chopAnnotations :: "string \<Rightarrow> string" where
  "chopAnnotations mstr =
     (if mstr \<noteq> [] \<and> (last mstr = CHR ''+'' \<or> last mstr = CHR ''#'' \<or>
                      last mstr = CHR ''!'' \<or> last mstr = CHR ''?'')
      then chopAnnotations (butlast mstr)
      else mstr)"

declare chopAnnotations.simps [simp del]

text \<open>
  The locals of \<^verbatim>\<open>moveFromSanString\<close> once the squares have been read (line 265):
  the piece type, the source square (a coordinate is \<open>-1\<close> when the string does not
  give it), the target square, whether the string has the capture mark, and the
  iterator \<^verbatim>\<open>it\<close> as an offset from \<^verbatim>\<open>mstr.begin()\<close>.
\<close>

record sanLocals =
  l_piece :: int
  l_sourceSq :: square
  l_targetSq :: square
  l_stringIsCapture :: bool
  l_it :: nat

definition noSquare :: square where
  "noSquare = \<lparr>sq_file = - 1, sq_rank = - 1\<rparr>"

text \<open>
  Lines 210--220, the piece type: a piece letter, or none for a pawn, in which case
  the first two characters are tried as the target square. The result is the piece,
  the target square and the iterator.
\<close>

definition sanPieceType :: "'x externals \<Rightarrow> 'x board_scheme \<Rightarrow> string \<Rightarrow> int \<times> square \<times> nat" where
  "sanPieceType E b mstr =
     (let piece0 = pieceCode E (mstr ! 0);
          piece = (if piece0 < 0 then NoPiece E else piece0)
      in if piece = NoPiece E
         then (let targetSq = squareOf E (mid mstr 0 2)
               in (Pawn E, targetSq, if isValidSquare b targetSq then 2 else 0))
         else (piece, noSquare, 1))"

text \<open>
  Lines 256--262, the target square read at the iterator; \<open>None\<close> is the
  \<^verbatim>\<open>return Move(0, 0)\<close> of line 259.
\<close>

definition sanTarget ::
  "'x externals \<Rightarrow> string \<Rightarrow> int \<Rightarrow> square \<Rightarrow> bool \<Rightarrow> nat \<Rightarrow> sanLocals option"
where
  "sanTarget E mstr piece sourceSq stringIsCapture it =
     (if it + 1 = length mstr then None
      else Some \<lparr>l_piece = piece, l_sourceSq = sourceSq,
                 l_targetSq = squareOf E (mid mstr it 2),
                 l_stringIsCapture = stringIsCapture, l_it = it + 2\<rparr>)"

text \<open>
  Lines 224--263: source file, source rank, capture mark and target square, given
  the piece, the target square and the iterator that lines 210--220 left. \<open>None\<close>
  stands for each \<^verbatim>\<open>return Move(0, 0)\<close> in that range.
\<close>

definition sanSource ::
  "'x externals \<Rightarrow> 'x board_scheme \<Rightarrow> string \<Rightarrow> int \<Rightarrow> square \<Rightarrow> nat \<Rightarrow> sanLocals option"
where
  "sanSource E b mstr piece targetSq0 it0 =
     (if isValidSquare b targetSq0
      then Some \<lparr>l_piece = piece, l_sourceSq = noSquare, l_targetSq = targetSq0,
                 l_stringIsCapture = False, l_it = it0\<rparr>
      else
        let f0 = toAscii (mstr ! it0) - 97;
            fileOk = \<not> (f0 < 0 \<or> f0 \<ge> m_width b);
            f = (if fileOk then f0 else - 1);
            it1 = (if fileOk then it0 + 1 else it0)
        in if fileOk \<and> it1 = length mstr then None
           else
             let digit = isDigit (mstr ! it1);
                 r0 = toAscii (mstr ! it1) - 49
             in if digit \<and> (r0 < 0 \<or> r0 \<ge> m_height b) then None
                else
                  let r = (if digit then r0 else - 1);
                      it2 = (if digit then it1 + 1 else it1);
                      sourceSq = \<lparr>sq_file = f, sq_rank = r\<rparr>
                  in if it2 = length mstr
                     then (if isValidSquare b sourceSq
                           then Some \<lparr>l_piece = piece, l_sourceSq = noSquare,
                                      l_targetSq = sourceSq,
                                      l_stringIsCapture = False, l_it = it2\<rparr>
                           else None)
                     else if mstr ! it2 = CHR ''x''
                     then (if it2 + 1 = length mstr then None
                           else sanTarget E mstr piece sourceSq True (it2 + 1))
                     else sanTarget E mstr piece sourceSq False it2)"

text \<open>
  Lines 201--265: the piece type, then the squares, then the test of line 264 that
  the target square is valid.
\<close>

definition sanSquares :: "'x externals \<Rightarrow> 'x board_scheme \<Rightarrow> string \<Rightarrow> sanLocals option" where
  "sanSquares E b mstr =
     (case sanPieceType E b mstr of
        (piece, targetSq0, it0) \<Rightarrow>
          (case sanSource E b mstr piece targetSq0 it0 of
             None \<Rightarrow> None
           | Some l \<Rightarrow> (if \<not> isValidSquare b (l_targetSq l) then None else Some l)))"

text \<open>Lines 270--273: whether the move is a capture on the board.\<close>

definition sanIsCapture :: "'x externals \<Rightarrow> 'x board_scheme \<Rightarrow> int \<Rightarrow> int \<Rightarrow> bool" where
  "sanIsCapture E b piece target \<longleftrightarrow>
     m_squares b target * m_sign b < 0 \<or> (target = m_enpassantSquare b \<and> piece = Pawn E)"

text \<open>
  Lines 278--287: the promotion piece read at the iterator; \<open>None\<close> is the
  \<^verbatim>\<open>return Move(0, 0)\<close> of lines 282 and 286. The iterator is not moved past the
  piece letter and is not compared with the end again.
\<close>

definition sanPromotion :: "'x externals \<Rightarrow> string \<Rightarrow> nat \<Rightarrow> int option" where
  "sanPromotion E mstr it =
     (if it \<noteq> length mstr
      then (let lead = (mstr ! it = CHR ''='' \<or> mstr ! it = CHR ''('')
            in if lead \<and> it + 1 = length mstr then None
               else
                 let it1 = (if lead then it + 1 else it);
                     promo = pieceCode E (mstr ! it1)
                 in if promo = NoPiece E then None else Some promo)
      else Some (NoPiece E))"

text \<open>
  Lines 295--322: the loop over the legal moves. \<open>match\<close> is the iterator of the
  source, \<open>None\<close> standing for \<^verbatim>\<open>moves.end()\<close>.
\<close>

fun sanFindMatch ::
  "'x externals \<Rightarrow> 'x board_scheme \<Rightarrow> int \<Rightarrow> int \<Rightarrow> square \<Rightarrow> int \<Rightarrow> move list \<Rightarrow> move option \<Rightarrow> move"
where
  "sanFindMatch E b piece target sourceSq promo [] match =
     (case match of Some mv \<Rightarrow> mv | None \<Rightarrow> Move2 E 0 0)"
| "sanFindMatch E b piece target sourceSq promo (mv # moves) match =
     (let piece2 = m_squares b (sourceSquare mv) * m_sign b
      in if piece2 \<noteq> piece then sanFindMatch E b piece target sourceSq promo moves match
         else if targetSquare mv \<noteq> target
         then sanFindMatch E b piece target sourceSq promo moves match
         else
           let sourceSq2 = chessSquare E b (sourceSquare mv)
           in if sq_rank sourceSq \<noteq> - 1 \<and> sq_rank sourceSq2 \<noteq> sq_rank sourceSq
              then sanFindMatch E b piece target sourceSq promo moves match
              else if sq_file sourceSq \<noteq> - 1 \<and> sq_file sourceSq2 \<noteq> sq_file sourceSq
              then sanFindMatch E b piece target sourceSq promo moves match
              else if castlingSide mv \<noteq> - 1
              then sanFindMatch E b piece target sourceSq promo moves match
              else if promotion mv \<noteq> promo
              then sanFindMatch E b piece target sourceSq promo moves match
              else if match \<noteq> None then Move2 E 0 0
              else sanFindMatch E b piece target sourceSq promo moves (Some mv))"

text \<open>
  The tests of lines 296--310 as one predicate: a legal move stays in the loop body
  past the six \<^verbatim>\<open>continue\<close> statements when it moves a piece of the parsed kind to
  the parsed target, agrees with the source rank and file where the string gave
  them, is not a castling move, and has the parsed promotion.
\<close>

definition sanMatches ::
  "'x externals \<Rightarrow> 'x board_scheme \<Rightarrow> int \<Rightarrow> int \<Rightarrow> square \<Rightarrow> int \<Rightarrow> move \<Rightarrow> bool"
where
  "sanMatches E b piece target sourceSq promo mv \<longleftrightarrow>
     m_squares b (sourceSquare mv) * m_sign b = piece \<and>
     targetSquare mv = target \<and>
     (sq_rank sourceSq = - 1 \<or> sq_rank (chessSquare E b (sourceSquare mv)) = sq_rank sourceSq) \<and>
     (sq_file sourceSq = - 1 \<or> sq_file (chessSquare E b (sourceSquare mv)) = sq_file sourceSq) \<and>
     castlingSide mv = - 1 \<and>
     promotion mv = promo"

definition moveFromSanString :: "'x externals \<Rightarrow> 'x board_scheme \<Rightarrow> string \<Rightarrow> move" where
  "moveFromSanString E b str =
     (if length str < 2 then Move2 E 0 0
      else
        let mstr = chopAnnotations str
        in if length mstr < 2 then Move2 E 0 0
           else if take 3 mstr = ''O-O''
           then (if mstr = ''O-O''
                 then Move (m_kingSquare b (m_side b))
                        (m_castleTarget b (m_side b) (KingSide E)) (NoPiece E) (KingSide E)
                 else if mstr = ''O-O-O''
                 then Move (m_kingSquare b (m_side b))
                        (m_castleTarget b (m_side b) (QueenSide E)) (NoPiece E) (QueenSide E)
                 else Move2 E 0 0)
           else if mstr ! 0 = CHR ''x'' \<or> mstr ! 0 = CHR ''P'' then Move2 E 0 0
           else
             (case sanSquares E b mstr of
                None \<Rightarrow> Move2 E 0 0
              | Some l \<Rightarrow>
                  let target = squareIndex E b (l_targetSq l)
                  in if sanIsCapture E b (l_piece l) target \<noteq> l_stringIsCapture l
                     then Move2 E 0 0
                     else
                       (case sanPromotion E mstr (l_it l) of
                          None \<Rightarrow> Move2 E 0 0
                        | Some promo \<Rightarrow>
                            sanFindMatch E b (l_piece l) target (l_sourceSq l) promo
                              (legalMoves E b) None)))"

text \<open>
  The offset at which line 284 reads the promotion piece letter, for a string whose
  squares have been read and that goes on after the target square: the iterator, or
  one past it when it stands on \<open>=\<close> or \<open>(\<close>.
\<close>

definition sanPromotionLetter :: "'x externals \<Rightarrow> 'x board_scheme \<Rightarrow> string \<Rightarrow> nat" where
  "sanPromotionLetter E b mstr =
     (case sanSquares E b mstr of
        None \<Rightarrow> 0
      | Some l \<Rightarrow> (if mstr ! l_it l = CHR ''='' \<or> mstr ! l_it l = CHR ''('' then l_it l + 1
                    else l_it l))"

subsection \<open>The dispatchers\<close>

text \<open>
  \<^verbatim>\<open>moveString\<close> returns the string and the board it leaves (the SAN encoder makes
  and takes back a move; the LAN encoder is \<^verbatim>\<open>const\<close>).
\<close>

definition moveString ::
  "'x externals \<Rightarrow> 'x board_scheme \<Rightarrow> move \<Rightarrow> MoveNotation \<Rightarrow> string \<times> 'x board_scheme"
where
  "moveString E b mv notation =
     (if notation = StandardAlgebraic \<or> (castlingSide mv \<noteq> - 1 \<and> m_isRandom b)
      then sanMoveString E b mv
      else (longAlgebraicMoveString E b mv, b))"

definition moveFromString :: "'x externals \<Rightarrow> 'x board_scheme \<Rightarrow> string \<Rightarrow> move" where
  "moveFromString E b str =
     (let mv = moveFromSanString E b str
      in if sourceSquare mv = 0 \<or> targetSquare mv = 0
         then moveFromLongAlgebraicString E b str
         else mv)"

subsection \<open>Assumptions on the environment\<close>

text \<open>
  The round trip through the two notations depends on facts about the lexicon, the
  board and the move generator that the six functions take for granted. They are
  stated here as predicates on the parameters.
\<close>

text \<open>The letter of a file and the digit of a rank, as lines 118 and 120 compute them.\<close>

definition fileChar :: "int \<Rightarrow> char" where
  "fileChar f = char_of (97 + f)"

definition rankChar :: "int \<Rightarrow> char" where
  "rankChar r = char_of (49 + r)"

text \<open>The four characters that line 178 chops off.\<close>

definition isAnnotation :: "char \<Rightarrow> bool" where
  "isAnnotation c \<longleftrightarrow> c = CHR ''+'' \<or> c = CHR ''#'' \<or> c = CHR ''!'' \<or> c = CHR ''?''"

text \<open>
  The lexicon: \<^verbatim>\<open>NoPiece\<close> is \<open>0\<close> (line 127 tests the promotion as a truth
  value); the board has at most 23 files (so that \<open>x\<close> is not a file letter) and 9
  ranks; the token of a valid square is its file letter and its rank digit, and
  parses back to the square; only such tokens parse to valid squares; and a file
  letter is not the letter of a piece of the side written in capitals
  (\<^verbatim>\<open>pieceCode\<close> gives \<^verbatim>\<open>NoPiece\<close> or a negative code, which line 212 turns into
  \<^verbatim>\<open>NoPiece\<close>).
\<close>

definition lexiconOk :: "'x externals \<Rightarrow> 'x board_scheme \<Rightarrow> bool" where
  "lexiconOk E b \<longleftrightarrow>
     NoPiece E = 0 \<and> m_width b \<le> 23 \<and> m_height b \<le> 9 \<and>
     (\<forall>sq. isValidSquare b sq \<longrightarrow>
        squareString E sq = [char_of (97 + sq_file sq), char_of (49 + sq_rank sq)] \<and>
        squareOf E (squareString E sq) = sq) \<and>
     (\<forall>s. isValidSquare b (squareOf E s) \<longrightarrow> squareString E (squareOf E s) = s) \<and>
     (\<forall>f. 0 \<le> f \<and> f < m_width b \<longrightarrow> pieceCode E (char_of (97 + f)) \<le> 0)"

text \<open>
  A legal move: its squares are squares of the board, not the index \<open>0\<close>, and
  \<^verbatim>\<open>squareIndex\<close> inverts \<^verbatim>\<open>chessSquare\<close> on them; it moves a piece of the side
  to move and, unless it castles, not onto a piece of that side; a piece other than
  a pawn has a letter that \<^verbatim>\<open>pieceCode\<close> reads back, different from \<open>x\<close>, \<open>P\<close>
  and \<open>O\<close>, and does not promote; the letter of a promotion piece reads back, also
  through lower and upper case, and is not chopped; a king differs from a pawn and
  starts on the registered king square; a castling move is a king's move to the
  registered castling target of its wing and does not promote.
\<close>

definition moveOk :: "'x externals \<Rightarrow> 'x board_scheme \<Rightarrow> move \<Rightarrow> bool" where
  "moveOk E b mv \<longleftrightarrow>
     (let piece = m_squares b (sourceSquare mv) * m_sign b
      in sourceSquare mv \<noteq> 0 \<and> targetSquare mv \<noteq> 0 \<and>
         isValidSquare b (chessSquare E b (sourceSquare mv)) \<and>
         isValidSquare b (chessSquare E b (targetSquare mv)) \<and>
         squareIndex E b (chessSquare E b (sourceSquare mv)) = sourceSquare mv \<and>
         squareIndex E b (chessSquare E b (targetSquare mv)) = targetSquare mv \<and>
         0 < piece \<and>
         (castlingSide mv = - 1 \<longrightarrow> m_squares b (targetSquare mv) * m_sign b \<le> 0) \<and>
         (piece \<noteq> Pawn E \<longrightarrow>
            pieceCode E (pieceChar E piece) = piece \<and>
            pieceChar E piece \<noteq> CHR ''x'' \<and> pieceChar E piece \<noteq> CHR ''P'' \<and>
            pieceChar E piece \<noteq> CHR ''O'' \<and>
            promotion mv = NoPiece E) \<and>
         (promotion mv \<noteq> NoPiece E \<longrightarrow>
            pieceCode E (pieceChar E (promotion mv)) = promotion mv \<and>
            \<not> isAnnotation (pieceChar E (promotion mv)) \<and>
            pieceCode E (toUpper E (toLower E (pieceChar E (promotion mv)))) = promotion mv \<and>
            \<not> isAnnotation (toLower E (pieceChar E (promotion mv)))) \<and>
         (piece = King E \<longrightarrow>
            King E \<noteq> Pawn E \<and> sourceSquare mv = m_kingSquare b (m_side b)) \<and>
         (castlingSide mv \<noteq> - 1 \<longrightarrow>
            piece = King E \<and>
            (castlingSide mv = KingSide E \<or> castlingSide mv = QueenSide E) \<and>
            KingSide E \<noteq> QueenSide E \<and>
            targetSquare mv = m_castleTarget b (m_side b) (castlingSide mv) \<and>
            promotion mv = NoPiece E))"

text \<open>
  A position: the legal moves are listed once each, every one of them is as above,
  and two pawns that reach the same target reach it from the same square when the
  target is empty and not the en-passant square (a push) or when they start on the
  same file.
\<close>

definition positionOk :: "'x externals \<Rightarrow> 'x board_scheme \<Rightarrow> bool" where
  "positionOk E b \<longleftrightarrow>
     distinct (legalMoves E b) \<and>
     (\<forall>mv \<in> set (legalMoves E b). moveOk E b mv) \<and>
     (\<forall>m \<in> set (legalMoves E b). \<forall>m' \<in> set (legalMoves E b).
        m_squares b (sourceSquare m) * m_sign b = Pawn E \<and>
        m_squares b (sourceSquare m') * m_sign b = Pawn E \<and>
        targetSquare m = targetSquare m' \<and>
        ((m_squares b (targetSquare m) = NoPiece E \<and> targetSquare m \<noteq> m_enpassantSquare b) \<or>
         sq_file (chessSquare E b (sourceSquare m)) = sq_file (chessSquare E b (sourceSquare m')))
        \<longrightarrow> sourceSquare m = sourceSquare m')"

text \<open>
  The geometry that the LAN decoder's castling inference relies on: a king's move
  that is not castling never changes the index by 2 or 3, and without a randomized
  start queenside castling changes it by \<open>-2\<close> or \<open>-3\<close> and kingside castling by
  \<open>2\<close> or \<open>3\<close>.
\<close>

definition lanGeometry :: "'x externals \<Rightarrow> 'x board_scheme \<Rightarrow> move \<Rightarrow> bool" where
  "lanGeometry E b mv \<longleftrightarrow>
     (m_squares b (sourceSquare mv) * m_sign b = King E \<longrightarrow>
        (let diff = targetSquare mv - sourceSquare mv
         in (castlingSide mv = - 1 \<longrightarrow>
               diff \<noteq> - 3 \<and> diff \<noteq> - 2 \<and> diff \<noteq> 2 \<and> diff \<noteq> 3) \<and>
            (\<not> m_isRandom b \<longrightarrow>
               (castlingSide mv = QueenSide E \<longrightarrow> diff = - 2 \<or> diff = - 3) \<and>
               (castlingSide mv = KingSide E \<longrightarrow> diff = 2 \<or> diff = 3))))"

subsection \<open>A sample environment\<close>

text \<open>
  A concrete instance of the parameters, on which the functions above can be
  evaluated: the 8 by 8 board as an array of 12 rows of 10 squares (a border of two
  rows and one column around the board, a8 at index 21 and h1 at index 98), the
  pieces numbered \<open>1\<close> (pawn) to \<open>6\<close> (king), negative for the second side, the
  letters \<open>PNBRQK\<close>, and an engine that keeps the position before each move on a
  stack and answers \<^verbatim>\<open>legalMoves\<close> and \<^verbatim>\<open>inCheck\<close> from a table written for one
  position and its successors.
\<close>

record history = board +
  m_history :: "(move \<times> (int \<Rightarrow> int) \<times> int \<times> (int \<Rightarrow> int)) list"

definition sampleSquareString :: "square \<Rightarrow> string" where
  "sampleSquareString sq = [char_of (97 + sq_file sq), char_of (49 + sq_rank sq)]"

definition sampleSquareOf :: "string \<Rightarrow> square" where
  "sampleSquareOf s =
     (if length s = 2
      then \<lparr>sq_file = toAscii (s ! 0) - 97, sq_rank = toAscii (s ! 1) - 49\<rparr>
      else noSquare)"

definition sampleToUpper :: "char \<Rightarrow> char" where
  "sampleToUpper c =
     (if (97::nat) \<le> of_char c \<and> of_char c \<le> (122::nat)
      then char_of (of_char c - (32::nat)) else c)"

definition sampleToLower :: "char \<Rightarrow> char" where
  "sampleToLower c =
     (if (65::nat) \<le> of_char c \<and> of_char c \<le> (90::nat)
      then char_of (of_char c + (32::nat)) else c)"

definition samplePieceChar :: "int \<Rightarrow> char" where
  "samplePieceChar p =
     (let c = (if \<bar>p\<bar> = 1 then CHR ''P'' else if \<bar>p\<bar> = 2 then CHR ''N''
               else if \<bar>p\<bar> = 3 then CHR ''B'' else if \<bar>p\<bar> = 4 then CHR ''R''
               else if \<bar>p\<bar> = 5 then CHR ''Q'' else if \<bar>p\<bar> = 6 then CHR ''K''
               else CHR ''?'')
      in if p < 0 then sampleToLower c else c)"

definition samplePieceCode :: "char \<Rightarrow> int" where
  "samplePieceCode c =
     (let u = sampleToUpper c;
          code = (if u = CHR ''P'' then 1 else if u = CHR ''N'' then 2
                  else if u = CHR ''B'' then 3 else if u = CHR ''R'' then 4
                  else if u = CHR ''Q'' then 5 else if u = CHR ''K'' then 6
                  else 0)
      in if u = c then code else - code)"

definition sampleChessSquare :: "history \<Rightarrow> int \<Rightarrow> square" where
  "sampleChessSquare b i =
     \<lparr>sq_file = i mod (m_width b + 2) - 1,
      sq_rank = (m_height b - 1) - (i div (m_width b + 2) - 2)\<rparr>"

definition sampleSquareIndex :: "history \<Rightarrow> square \<Rightarrow> int" where
  "sampleSquareIndex b sq =
     (if isValidSquare b sq
      then ((m_height b - 1 - sq_rank sq) + 2) * (m_width b + 2) + 1 + sq_file sq
      else 0)"

definition sampleMakeMove :: "history \<Rightarrow> move \<Rightarrow> history" where
  "sampleMakeMove b mv =
     b\<lparr>m_squares :=
         (let squares = (m_squares b)
                (targetSquare mv := (if promotion mv \<noteq> 0 then promotion mv * m_sign b
                                     else m_squares b (sourceSquare mv)),
                 sourceSquare mv := 0)
          in if castlingSide mv = 1
             then squares(targetSquare mv - 1 := squares (targetSquare mv + 1),
                          targetSquare mv + 1 := 0)
             else if castlingSide mv = 0
             then squares(targetSquare mv + 1 := squares (targetSquare mv - 2),
                          targetSquare mv - 2 := 0)
             else squares),
       m_sign := - m_sign b,
       m_side := 1 - m_side b,
       m_enpassantSquare := 0,
       m_kingSquare := (if m_squares b (sourceSquare mv) * m_sign b = 6
                        then (m_kingSquare b)(m_side b := targetSquare mv)
                        else m_kingSquare b),
       m_history := (mv, m_squares b, m_enpassantSquare b, m_kingSquare b) # m_history b\<rparr>"

definition sampleUndoMove :: "history \<Rightarrow> history" where
  "sampleUndoMove b =
     (case m_history b of
        [] \<Rightarrow> b
      | (mv, squares, ep, kings) # h \<Rightarrow>
          b\<lparr>m_squares := squares, m_sign := - m_sign b, m_side := 1 - m_side b,
            m_enpassantSquare := ep, m_kingSquare := kings, m_history := h\<rparr>)"

text \<open>
  The sample position, White to move: king h1, knights b1 and f1, pawns g2, h2 and
  e7; Black: king h8, pawns g7 and h7.
\<close>

definition samplePosition :: history where
  "samplePosition =
     \<lparr>m_squares = (\<lambda>i. 0)(98 := 6, 92 := 2, 96 := 2, 87 := 1, 88 := 1, 35 := 1,
                               28 := - 6, 37 := - 1, 38 := - 1),
      m_sign = 1,
      m_side = 0,
      m_isRandom = False,
      m_enpassantSquare = 0,
      m_kingSquare = (\<lambda>side. if side = 0 then 98 else 28),
      m_castleTarget = (\<lambda>side cside. if side = 0 then (if cside = 0 then 93 else 97)
                                       else (if cside = 0 then 23 else 27)),
      m_width = 8,
      m_height = 8,
      m_history = []\<rparr>"

text \<open>
  White's fifteen legal moves in the sample position, and Black's five in every
  successor but the two in which the pawn becomes a queen or a rook and mates.
\<close>

definition sampleWhiteMoves :: "move list" where
  "sampleWhiteMoves =
     [Move 98 97 0 (- 1),
      Move 87 77 0 (- 1), Move 87 67 0 (- 1), Move 88 78 0 (- 1), Move 88 68 0 (- 1),
      Move 92 71 0 (- 1), Move 92 73 0 (- 1), Move 92 84 0 (- 1),
      Move 96 84 0 (- 1), Move 96 75 0 (- 1), Move 96 77 0 (- 1),
      Move 35 25 5 (- 1), Move 35 25 4 (- 1), Move 35 25 3 (- 1), Move 35 25 2 (- 1)]"

definition sampleBlackMoves :: "move list" where
  "sampleBlackMoves =
     [Move 28 27 0 (- 1),
      Move 37 47 0 (- 1), Move 37 57 0 (- 1), Move 38 48 0 (- 1), Move 38 58 0 (- 1)]"

definition sampleMates :: "move \<Rightarrow> bool" where
  "sampleMates mv \<longleftrightarrow> mv = Move 35 25 5 (- 1) \<or> mv = Move 35 25 4 (- 1)"

definition sampleLegalMoves :: "history \<Rightarrow> move list" where
  "sampleLegalMoves b =
     (case m_history b of
        [] \<Rightarrow> sampleWhiteMoves
      | (mv, past) # h \<Rightarrow> (if sampleMates mv then [] else sampleBlackMoves))"

definition sampleInCheck :: "history \<Rightarrow> int \<Rightarrow> bool" where
  "sampleInCheck b side =
     (case m_history b of
        [] \<Rightarrow> False
      | (mv, past) # h \<Rightarrow> side = 1 \<and> sampleMates mv)"

definition sampleEnv :: "unit history_ext externals" where
  "sampleEnv =
     \<lparr>NoPiece = 0, Pawn = 1, King = 6, QueenSide = 0, KingSide = 1,
      legalMoves = sampleLegalMoves,
      makeMove = sampleMakeMove,
      undoMove = sampleUndoMove,
      inCheck = sampleInCheck,
      chessSquare = sampleChessSquare,
      squareIndex = sampleSquareIndex,
      squareString = sampleSquareString,
      squareOf = sampleSquareOf,
      pieceChar = samplePieceChar,
      pieceCode = samplePieceCode,
      toUpper = sampleToUpper,
      toLower = sampleToLower\<rparr>"

text \<open>
  A second position for the same board, lexicon and make/undo, with its own table:
  White to move with king e1, rook h1 and pawns d2, e2, f2 against the bare king e8.
  White may castle kingside; the rook's move to h8 gives check.
\<close>

definition sampleCastlePosition :: history where
  "sampleCastlePosition =
     \<lparr>m_squares = (\<lambda>i. 0)(95 := 6, 98 := 4, 84 := 1, 85 := 1, 86 := 1, 25 := - 6),
      m_sign = 1,
      m_side = 0,
      m_isRandom = False,
      m_enpassantSquare = 0,
      m_kingSquare = (\<lambda>side. if side = 0 then 95 else 25),
      m_castleTarget = (\<lambda>side cside. if side = 0 then (if cside = 0 then 93 else 97)
                                       else (if cside = 0 then 23 else 27)),
      m_width = 8,
      m_height = 8,
      m_history = []\<rparr>"

definition sampleCastleWhiteMoves :: "move list" where
  "sampleCastleWhiteMoves =
     [Move 95 94 0 (- 1), Move 95 96 0 (- 1), Move 95 97 0 1,
      Move 98 97 0 (- 1), Move 98 96 0 (- 1),
      Move 98 88 0 (- 1), Move 98 78 0 (- 1), Move 98 68 0 (- 1), Move 98 58 0 (- 1),
      Move 98 48 0 (- 1), Move 98 38 0 (- 1), Move 98 28 0 (- 1),
      Move 84 74 0 (- 1), Move 84 64 0 (- 1), Move 85 75 0 (- 1), Move 85 65 0 (- 1),
      Move 86 76 0 (- 1), Move 86 66 0 (- 1)]"

definition sampleCastleBlackMoves :: "move \<Rightarrow> move list" where
  "sampleCastleBlackMoves mv =
     (if mv = Move 98 28 0 (- 1)
      then [Move 25 34 0 (- 1), Move 25 35 0 (- 1), Move 25 36 0 (- 1)]
      else if mv = Move 98 38 0 (- 1)
      then [Move 25 24 0 (- 1), Move 25 26 0 (- 1)]
      else [Move 25 24 0 (- 1), Move 25 26 0 (- 1),
            Move 25 34 0 (- 1), Move 25 35 0 (- 1), Move 25 36 0 (- 1)])"

definition sampleCastleLegalMoves :: "history \<Rightarrow> move list" where
  "sampleCastleLegalMoves b =
     (case m_history b of
        [] \<Rightarrow> sampleCastleWhiteMoves
      | (mv, past) # h \<Rightarrow> sampleCastleBlackMoves mv)"

definition sampleCastleInCheck :: "history \<Rightarrow> int \<Rightarrow> bool" where
  "sampleCastleInCheck b side =
     (case m_history b of
        [] \<Rightarrow> False
      | (mv, past) # h \<Rightarrow> side = 1 \<and> mv = Move 98 28 0 (- 1))"

definition sampleCastleEnv :: "unit history_ext externals" where
  "sampleCastleEnv =
     sampleEnv\<lparr>legalMoves := sampleCastleLegalMoves, inCheck := sampleCastleInCheck\<rparr>"

section \<open>Properties\<close>

subsection \<open>The encoding dispatcher\<close>

text \<open>
  Claim C6. \<^verbatim>\<open>moveString\<close> returns the SAN encoding when the requested notation is
  \<^verbatim>\<open>StandardAlgebraic\<close>, or when the move's castling side is not none and the game
  has a randomized starting setup; in every other case it returns the LAN encoding.
\<close>

theorem moveString_dispatch:
  "fst (moveString E b mv notation) =
     (if notation = StandardAlgebraic \<or> (castlingSide mv \<noteq> - 1 \<and> m_isRandom b)
      then fst (sanMoveString E b mv)
      else longAlgebraicMoveString E b mv)"
  by (simp add: moveString_def)

subsection \<open>The board after SAN encoding\<close>

lemma sanMoveString_snd: "snd (sanMoveString E b mv) = undoMove E (makeMove E b mv)"
  by (simp add: sanMoveString_def Let_def)

text \<open>
  Claim C4. On every return path of \<^verbatim>\<open>sanMoveString\<close>, the early castling return
  included, the board handed back is the one obtained by making the move and taking
  it back; so whenever \<^verbatim>\<open>undoMove\<close> reverts \<^verbatim>\<open>makeMove\<close>, the caller's board (piece
  array, side to move, en-passant square, king squares, castling registry and all
  else) is exactly the prior one.
\<close>

theorem sanMoveString_restores_board:
  "snd (sanMoveString E b mv) = undoMove E (makeMove E b mv) \<and>
   (undoMove E (makeMove E b mv) = b \<longrightarrow> snd (sanMoveString E b mv) = b)"
  by (simp add: sanMoveString_snd)

theorem sanMoveString_restores_board_witness:
  "undoMove sampleEnv (makeMove sampleEnv samplePosition (Move 35 25 5 (- 1))) = samplePosition \<and>
   snd (sanMoveString sampleEnv samplePosition (Move 35 25 5 (- 1))) = samplePosition"
proof -
  have "undoMove sampleEnv (makeMove sampleEnv samplePosition (Move 35 25 5 (- 1))) =
          samplePosition"
    by (simp add: sampleEnv_def sampleMakeMove_def sampleUndoMove_def samplePosition_def)
  with sanMoveString_restores_board [of sampleEnv samplePosition "Move 35 25 5 (- 1)"]
  show ?thesis by simp
qed

subsection \<open>The disambiguation loop\<close>

text \<open>
  The loop sets \<open>needFile\<close> when some other legal move of a piece of the same kind
  to the same target starts on another file, and \<open>needRank\<close> when one starts on the
  same file and another rank.
\<close>

lemma disambiguate_eq:
  "disambiguate E b source target piece sq moves (needFile, needRank) =
     (needFile \<or> (\<exists>it \<in> set moves. sourceSquare it \<noteq> source \<and>
          m_squares b (sourceSquare it) * m_sign b = piece \<and> targetSquare it = target \<and>
          sq_file (chessSquare E b (sourceSquare it)) \<noteq> sq_file sq),
      needRank \<or> (\<exists>it \<in> set moves. sourceSquare it \<noteq> source \<and>
          m_squares b (sourceSquare it) * m_sign b = piece \<and> targetSquare it = target \<and>
          sq_file (chessSquare E b (sourceSquare it)) = sq_file sq \<and>
          sq_rank (chessSquare E b (sourceSquare it)) \<noteq> sq_rank sq))"
proof (induction moves arbitrary: needFile needRank)
  case Nil
  show ?case by simp
next
  case (Cons it moves)
  show ?case
    by (simp add: Let_def Cons.IH)
qed

lemma disambiguate_inCheck [simp]:
  "disambiguate (E\<lparr>inCheck := f\<rparr>) b source target piece sq moves need =
   disambiguate E b source target piece sq moves need"
  by (cases need) (simp add: disambiguate_eq)

lemma sanTail_inCheck [simp]:
  "sanTail (E\<lparr>inCheck := f\<rparr>) = sanTail E"
  by (simp add: sanTail_def fun_eq_iff Let_def)

lemma sanTail_mark:
  "sanTail E b mv sq str needFile needRank capture c =
   sanTail E b mv sq str needFile needRank capture (CHR 0x00) @
     (if c \<noteq> CHR 0x00 then [c] else [])"
  by (simp add: sanTail_def Let_def)

subsection \<open>The check and mate marks\<close>

text \<open>
  The mark is appended last in each of the four branches of the encoder.
\<close>

lemma sanMoveString_mark:
  "fst (sanMoveString E b mv) =
     fst (sanMoveString (E\<lparr>inCheck := \<lambda>b' side. False\<rparr>) b mv) @
       (if inCheck E (makeMove E b mv) (m_side (makeMove E b mv))
        then (if legalMoves E (makeMove E b mv) = [] then ''#'' else ''+'')
        else [])"
proof -
  let ?piece = "m_squares b (sourceSquare mv) * m_sign b"
  note marks = sanTail_mark [where c = "CHR ''#''"] sanTail_mark [where c = "CHR ''+''"]
  consider (pawn) "?piece = Pawn E"
    | (castle) "?piece \<noteq> Pawn E" "?piece = King E" "castlingSide mv \<noteq> - 1"
    | (king) "?piece \<noteq> Pawn E" "?piece = King E" "castlingSide mv = - 1"
    | (other) "?piece \<noteq> Pawn E" "?piece \<noteq> King E"
    by blast
  then show ?thesis
  proof cases
    case pawn
    then show ?thesis
      by (simp add: sanMoveString_def Let_def marks)
  next
    case castle
    then show ?thesis
      by (simp add: sanMoveString_def Let_def)
  next
    case king
    then show ?thesis
      by (simp add: sanMoveString_def Let_def marks)
  next
    case other
    then show ?thesis
      by (simp add: sanMoveString_def Let_def marks)
  qed
qed

text \<open>
  Claim C2. The SAN encoding of a move is the encoding composed with check detection
  switched off, followed by \<open>#\<close> if after the move the side to move is in check and
  has no legal move, by \<open>+\<close> if it is in check and has a legal move, and by nothing
  otherwise; so the mark is the last character, also after \<open>O-O\<close> and \<open>O-O-O\<close>.
\<close>

theorem sanMoveString_check_mark:
  "fst (sanMoveString E b mv) =
     fst (sanMoveString (E\<lparr>inCheck := \<lambda>b' side. False\<rparr>) b mv) @
       (if inCheck E (makeMove E b mv) (m_side (makeMove E b mv))
        then (if legalMoves E (makeMove E b mv) = [] then ''#'' else ''+'')
        else [])"
  by (rule sanMoveString_mark)

text \<open>
  In the sample position the pawn's promotion to a queen mates, and its promotion to
  a knight does not give check.
\<close>

lemma sanMoveString_sample_mate:
  "fst (sanMoveString sampleEnv samplePosition (Move 35 25 5 (- 1))) = ''e8=Q#'' \<and>
   fst (sanMoveString sampleEnv samplePosition (Move 35 25 2 (- 1))) = ''e8=N''"
  by code_simp

text \<open>
  In the second sample position the rook's move to h8 gives check without mating, and
  castling gives none.
\<close>

lemma sanMoveString_sample_check:
  "fst (sanMoveString sampleCastleEnv sampleCastlePosition (Move 98 28 0 (- 1))) = ''Rh8+'' \<and>
   fst (sanMoveString sampleCastleEnv sampleCastlePosition (Move 95 97 0 1)) = ''O-O''"
  by code_simp

subsection \<open>Castling inferred by the LAN decoder\<close>

text \<open>
  Claim C7, as stated, fails: a fifth character that is not a piece letter makes the
  decoder return the null move, whose castling side is none, although both square
  tokens are valid, the king stands on the source square and the index difference is
  \<open>-2\<close>. Here the string is \<open>h1f1z\<close> in the sample position.
\<close>

theorem lan_castling_counterexample:
  "isValidSquare samplePosition (squareOf sampleEnv (mid ''h1f1z'' 0 2)) \<and>
   isValidSquare samplePosition (squareOf sampleEnv (mid ''h1f1z'' 2 2)) \<and>
   m_squares samplePosition
       (squareIndex sampleEnv samplePosition (squareOf sampleEnv (mid ''h1f1z'' 0 2)))
     * m_sign samplePosition = King sampleEnv \<and>
   squareIndex sampleEnv samplePosition (squareOf sampleEnv (mid ''h1f1z'' 2 2))
     - squareIndex sampleEnv samplePosition (squareOf sampleEnv (mid ''h1f1z'' 0 2)) = - 2 \<and>
   castlingSide (moveFromLongAlgebraicString sampleEnv samplePosition ''h1f1z'')
     \<noteq> QueenSide sampleEnv \<and>
   moveFromLongAlgebraicString sampleEnv samplePosition ''h1f1z'' = Move2 sampleEnv 0 0"
  by code_simp

text \<open>
  Claim C7, amended. For a string of at least four characters whose two square tokens
  parse to valid squares and whose fifth character, if there is one, is a piece
  letter, the decoded move's castling side is decided by the piece on the source
  square and the index difference alone: the side to move's king with a difference
  of \<open>-2\<close> or \<open>-3\<close> gives queenside, with \<open>2\<close> or \<open>3\<close> kingside, and any other
  difference or any other piece gives none. The legal moves are not consulted: the
  result is the same whatever the engine answers.
\<close>

theorem lan_castling_inference:
  assumes "4 \<le> length str"
    and "isValidSquare b (squareOf E (mid str 0 2))"
    and "isValidSquare b (squareOf E (mid str 2 2))"
    and "length str > 4 \<longrightarrow> pieceCode E (toUpper E (str ! 4)) \<noteq> NoPiece E"
  shows "castlingSide (moveFromLongAlgebraicString E b str) =
           (let source = squareIndex E b (squareOf E (mid str 0 2));
                target = squareIndex E b (squareOf E (mid str 2 2));
                diff = target - source
            in if m_squares b source * m_sign b = King E
               then (if diff = - 2 \<or> diff = - 3 then QueenSide E
                     else if diff = 2 \<or> diff = 3 then KingSide E
                     else - 1)
               else - 1)
         \<and> moveFromLongAlgebraicString (E\<lparr>legalMoves := engine\<rparr>) b str =
             moveFromLongAlgebraicString E b str"
  using assms by (simp add: moveFromLongAlgebraicString_def Move_def Move2_def Let_def)

theorem lan_castling_inference_witness:
  "4 \<le> length ''h1f1'' \<and>
   isValidSquare samplePosition (squareOf sampleEnv (mid ''h1f1'' 0 2)) \<and>
   isValidSquare samplePosition (squareOf sampleEnv (mid ''h1f1'' 2 2)) \<and>
   m_squares samplePosition 98 * m_sign samplePosition = King sampleEnv \<and>
   castlingSide (moveFromLongAlgebraicString sampleEnv samplePosition ''h1f1'') =
     QueenSide sampleEnv"
proof -
  have 1: "4 \<le> length ''h1f1''" by simp
  have 2: "isValidSquare samplePosition (squareOf sampleEnv (mid ''h1f1'' 0 2))"
    by code_simp
  have 3: "isValidSquare samplePosition (squareOf sampleEnv (mid ''h1f1'' 2 2))"
    by code_simp
  have 4: "length ''h1f1'' > 4 \<longrightarrow>
             pieceCode sampleEnv (toUpper sampleEnv (''h1f1'' ! 4)) \<noteq> NoPiece sampleEnv"
    by simp
  have 5: "m_squares samplePosition 98 * m_sign samplePosition = King sampleEnv"
    by code_simp
  have 6: "(let source = squareIndex sampleEnv samplePosition (squareOf sampleEnv (mid ''h1f1'' 0 2));
                target = squareIndex sampleEnv samplePosition (squareOf sampleEnv (mid ''h1f1'' 2 2));
                diff = target - source
            in if m_squares samplePosition source * m_sign samplePosition = King sampleEnv
               then (if diff = - 2 \<or> diff = - 3 then QueenSide sampleEnv
                     else if diff = 2 \<or> diff = 3 then KingSide sampleEnv
                     else - 1)
               else - 1) = QueenSide sampleEnv"
    by code_simp
  from lan_castling_inference [OF 1 2 3 4, of sampleLegalMoves] 6
  have "castlingSide (moveFromLongAlgebraicString sampleEnv samplePosition ''h1f1'') =
          QueenSide sampleEnv"
    by simp
  with 1 2 3 5 show ?thesis by simp
qed

subsection \<open>SAN decoding: from the parsed string to the legal move\<close>

text \<open>
  The loop with its iterator \<open>match\<close> computes a case distinction on the list of
  the legal moves that pass the tests.
\<close>

lemma sanFindMatch_Cons:
  "sanFindMatch E b piece target sourceSq promo (mv # moves) match =
     (if sanMatches E b piece target sourceSq promo mv
      then (if match \<noteq> None then Move2 E 0 0
            else sanFindMatch E b piece target sourceSq promo moves (Some mv))
      else sanFindMatch E b piece target sourceSq promo moves match)"
  by (simp add: sanMatches_def Let_def)

lemma sanFindMatch_Some:
  "sanFindMatch E b piece target sourceSq promo moves (Some m0) =
     (if filter (sanMatches E b piece target sourceSq promo) moves = [] then m0
      else Move2 E 0 0)"
  by (induction moves) (simp_all add: sanFindMatch_Cons del: sanFindMatch.simps(2))

lemma sanFindMatch_None:
  "sanFindMatch E b piece target sourceSq promo moves None =
     (case filter (sanMatches E b piece target sourceSq promo) moves of
        [] \<Rightarrow> Move2 E 0 0
      | [mv] \<Rightarrow> mv
      | mv # mv' # rest \<Rightarrow> Move2 E 0 0)"
  by (induction moves)
     (simp_all add: sanFindMatch_Cons sanFindMatch_Some split: list.splits
        del: sanFindMatch.simps(2))

text \<open>
  The decoder on a string that is not a castling string and whose squares have been
  read: what is left is the capture test, the promotion and the loop.
\<close>

lemma moveFromSanString_parsed:
  assumes "2 \<le> length str"
    and "mstr = chopAnnotations str"
    and "2 \<le> length mstr"
    and "take 3 mstr \<noteq> ''O-O''"
    and "mstr ! 0 \<noteq> CHR ''x''" and "mstr ! 0 \<noteq> CHR ''P''"
    and "sanSquares E b mstr = Some l"
  shows "moveFromSanString E b str =
           (if sanIsCapture E b (l_piece l) (squareIndex E b (l_targetSq l))
                 \<noteq> l_stringIsCapture l
            then Move2 E 0 0
            else (case sanPromotion E mstr (l_it l) of
                    None \<Rightarrow> Move2 E 0 0
                  | Some promo \<Rightarrow>
                      sanFindMatch E b (l_piece l) (squareIndex E b (l_targetSq l))
                        (l_sourceSq l) promo (legalMoves E b) None))"
  using assms by (simp add: moveFromSanString_def Let_def)

text \<open>
  Claim C3. When the string is not a castling string, its squares have been read, the
  capture test has passed and the promotion has been read, the decoder filters the
  legal moves by piece kind, target square, the source file and rank the string
  gave, non-castling and promotion piece: it returns the move when exactly one legal
  move passes, and the null move when none or when two or more pass.
\<close>

theorem moveFromSanString_resolution:
  assumes "2 \<le> length str"
    and "mstr = chopAnnotations str"
    and "2 \<le> length mstr"
    and "take 3 mstr \<noteq> ''O-O''"
    and "mstr ! 0 \<noteq> CHR ''x''" and "mstr ! 0 \<noteq> CHR ''P''"
    and "sanSquares E b mstr = Some l"
    and "sanIsCapture E b (l_piece l) (squareIndex E b (l_targetSq l)) = l_stringIsCapture l"
    and "sanPromotion E mstr (l_it l) = Some promo"
  shows "moveFromSanString E b str =
           (case filter (sanMatches E b (l_piece l) (squareIndex E b (l_targetSq l))
                           (l_sourceSq l) promo) (legalMoves E b) of
              [] \<Rightarrow> Move2 E 0 0
            | [mv] \<Rightarrow> mv
            | mv # mv' # rest \<Rightarrow> Move2 E 0 0)"
  using assms by (simp add: moveFromSanString_parsed [where mstr = mstr] sanFindMatch_None)

theorem moveFromSanString_resolution_witness:
  "moveFromSanString sampleEnv samplePosition ''Nbd2+'' = Move 92 84 0 (- 1) \<and>
   moveFromSanString sampleEnv samplePosition ''Nd2'' = Move2 sampleEnv 0 0 \<and>
   filter (sanMatches sampleEnv samplePosition 2 84 noSquare 0) (legalMoves sampleEnv samplePosition)
     = [Move 92 84 0 (- 1), Move 96 84 0 (- 1)] \<and>
   moveFromSanString sampleEnv samplePosition ''Nc4'' = Move2 sampleEnv 0 0 \<and>
   filter (sanMatches sampleEnv samplePosition 2 63 noSquare 0) (legalMoves sampleEnv samplePosition)
     = []"
proof -
  let ?l1 = "\<lparr>l_piece = 2, l_sourceSq = \<lparr>sq_file = 1, sq_rank = - 1\<rparr>,
              l_targetSq = \<lparr>sq_file = 3, sq_rank = 1\<rparr>, l_stringIsCapture = False, l_it = 4\<rparr>"
  let ?l2 = "\<lparr>l_piece = 2, l_sourceSq = noSquare,
              l_targetSq = \<lparr>sq_file = 3, sq_rank = 1\<rparr>, l_stringIsCapture = False, l_it = 3\<rparr>"
  let ?l3 = "\<lparr>l_piece = 2, l_sourceSq = noSquare,
              l_targetSq = \<lparr>sq_file = 2, sq_rank = 3\<rparr>, l_stringIsCapture = False, l_it = 3\<rparr>"
  have c1: "''Nbd2'' = chopAnnotations ''Nbd2+''" by code_simp
  have c2: "''Nd2'' = chopAnnotations ''Nd2''" by code_simp
  have c3: "''Nc4'' = chopAnnotations ''Nc4''" by code_simp
  have s1: "sanSquares sampleEnv samplePosition ''Nbd2'' = Some ?l1" by code_simp
  have s2: "sanSquares sampleEnv samplePosition ''Nd2'' = Some ?l2" by code_simp
  have s3: "sanSquares sampleEnv samplePosition ''Nc4'' = Some ?l3" by code_simp
  have k1: "sanIsCapture sampleEnv samplePosition (l_piece ?l1)
              (squareIndex sampleEnv samplePosition (l_targetSq ?l1)) = l_stringIsCapture ?l1"
    by code_simp
  have k2: "sanIsCapture sampleEnv samplePosition (l_piece ?l2)
              (squareIndex sampleEnv samplePosition (l_targetSq ?l2)) = l_stringIsCapture ?l2"
    by code_simp
  have k3: "sanIsCapture sampleEnv samplePosition (l_piece ?l3)
              (squareIndex sampleEnv samplePosition (l_targetSq ?l3)) = l_stringIsCapture ?l3"
    by code_simp
  have p1: "sanPromotion sampleEnv ''Nbd2'' (l_it ?l1) = Some 0" by code_simp
  have p2: "sanPromotion sampleEnv ''Nd2'' (l_it ?l2) = Some 0" by code_simp
  have p3: "sanPromotion sampleEnv ''Nc4'' (l_it ?l3) = Some 0" by code_simp
  let ?pick = "\<lambda>l. (case filter (sanMatches sampleEnv samplePosition (l_piece l)
                (squareIndex sampleEnv samplePosition (l_targetSq l)) (l_sourceSq l) 0)
              (legalMoves sampleEnv samplePosition) of
              [] \<Rightarrow> Move2 sampleEnv 0 0
            | [mv] \<Rightarrow> mv
            | mv # mv' # rest \<Rightarrow> Move2 sampleEnv 0 0)"
  have v1: "?pick ?l1 = Move 92 84 0 (- 1)" by code_simp
  have v2: "?pick ?l2 = Move2 sampleEnv 0 0" by code_simp
  have v3: "?pick ?l3 = Move2 sampleEnv 0 0" by code_simp
  have r1: "moveFromSanString sampleEnv samplePosition ''Nbd2+'' = ?pick ?l1"
    by (rule moveFromSanString_resolution [OF _ c1 _ _ _ _ s1 k1 p1]) simp_all
  have r2: "moveFromSanString sampleEnv samplePosition ''Nd2'' = ?pick ?l2"
    by (rule moveFromSanString_resolution [OF _ c2 _ _ _ _ s2 k2 p2]) simp_all
  have r3: "moveFromSanString sampleEnv samplePosition ''Nc4'' = ?pick ?l3"
    by (rule moveFromSanString_resolution [OF _ c3 _ _ _ _ s3 k3 p3]) simp_all
  have f2: "filter (sanMatches sampleEnv samplePosition 2 84 noSquare 0)
              (legalMoves sampleEnv samplePosition) = [Move 92 84 0 (- 1), Move 96 84 0 (- 1)]"
    by code_simp
  have f3: "filter (sanMatches sampleEnv samplePosition 2 63 noSquare 0)
              (legalMoves sampleEnv samplePosition) = []"
    by code_simp
  from trans [OF r1 v1] trans [OF r2 v2] trans [OF r3 v3] f2 f3 show ?thesis
    by (intro conjI)
qed

subsection \<open>SAN decoding: the capture mark\<close>

text \<open>
  The flag \<^verbatim>\<open>stringIsCapture\<close> is set on one path only, the one that has read
  \<open>x\<close> and then reads the target square behind it.
\<close>

lemma toAscii_x: "toAscii (CHR ''x'') = 120"
  by (simp add: toAscii_def)

lemma isDigit_x: "\<not> isDigit (CHR ''x'')"
  by (simp add: isDigit_def)

lemma sanSource_capture:
  assumes "sanSource E b mstr piece targetSq0 it0 = Some l"
    and "m_width b \<le> 23"
    and "mstr ! 0 \<noteq> CHR ''x''"
    and "it0 = 0 \<or> it0 = 1 \<or> (it0 = 2 \<and> isValidSquare b targetSq0)"
  shows "l_stringIsCapture l \<longleftrightarrow> 3 \<le> l_it l \<and> mstr ! (l_it l - 3) = CHR ''x''"
proof (cases "isValidSquare b targetSq0")
  case True
  with assms show ?thesis
    by (auto simp: sanSource_def)
next
  case False
  define f0 where "f0 = toAscii (mstr ! it0) - 97"
  define fileOk where "fileOk \<longleftrightarrow> \<not> (f0 < 0 \<or> f0 \<ge> m_width b)"
  define it1 where "it1 = (if fileOk then it0 + 1 else it0)"
  define digit where "digit = isDigit (mstr ! it1)"
  define it2 where "it2 = (if digit then it1 + 1 else it1)"
  have notx1: "fileOk \<Longrightarrow> mstr ! it0 \<noteq> CHR ''x''"
    using assms(2) by (auto simp: fileOk_def f0_def toAscii_x)
  have notx2: "digit \<Longrightarrow> mstr ! it1 \<noteq> CHR ''x''"
    by (auto simp: digit_def isDigit_x)
  have it0: "it0 = 0 \<or> it0 = 1" using assms(4) False by auto
  from assms(1) False
  consider (swap) "it2 = length mstr" "l_it l = it2" "\<not> l_stringIsCapture l"
    | (cap) "mstr ! it2 = CHR ''x''" "l_it l = it2 + 3" "l_stringIsCapture l"
    | (plain) "mstr ! it2 \<noteq> CHR ''x''" "l_it l = it2 + 2" "\<not> l_stringIsCapture l"
    unfolding sanSource_def sanTarget_def Let_def f0_def [symmetric] fileOk_def [symmetric]
      it1_def [symmetric] digit_def [symmetric] it2_def [symmetric]
    by (auto split: if_splits)
  then show ?thesis
  proof cases
    case swap
    then show ?thesis
      using it0 notx1 notx2 assms(3)
      by (auto simp: it2_def it1_def split: if_splits)
  next
    case cap
    then show ?thesis by simp
  next
    case plain
    then show ?thesis
      using it0 notx1 notx2 assms(3)
      by (auto simp: it2_def it1_def numeral_3_eq_3 split: if_splits)
  qed
qed

lemma sanPieceType_it:
  "sanPieceType E b mstr = (piece, targetSq0, it0) \<Longrightarrow>
     it0 = 0 \<or> it0 = 1 \<or> (it0 = 2 \<and> isValidSquare b targetSq0)"
  by (auto simp: sanPieceType_def Let_def split: if_splits)

lemma sanSquares_capture:
  assumes "sanSquares E b mstr = Some l"
    and "m_width b \<le> 23"
    and "mstr ! 0 \<noteq> CHR ''x''"
  shows "l_stringIsCapture l \<longleftrightarrow> 3 \<le> l_it l \<and> mstr ! (l_it l - 3) = CHR ''x''"
proof -
  obtain piece targetSq0 it0 where p: "sanPieceType E b mstr = (piece, targetSq0, it0)"
    by (cases "sanPieceType E b mstr") auto
  with assms(1) have "sanSource E b mstr piece targetSq0 it0 = Some l"
    by (auto simp: sanSquares_def split: option.splits if_splits)
  then show ?thesis
    using sanSource_capture assms(2,3) sanPieceType_it [OF p] by blast
qed

text \<open>
  Claim C5. Once the squares have been read, the decoder computes from the board
  whether the move is a capture (a piece of the other side on the target square, or
  a pawn moving to the en-passant square) and compares it with the flag set by an
  \<open>x\<close> in front of the target square: when the two differ the result is the null
  move, and only when they agree does decoding go on to the promotion and the legal
  moves. On a board of at most 23 files the flag is set exactly when the character
  in front of the target square is \<open>x\<close>.
\<close>

theorem moveFromSanString_capture_consistency:
  assumes "2 \<le> length str"
    and "mstr = chopAnnotations str"
    and "2 \<le> length mstr"
    and "take 3 mstr \<noteq> ''O-O''"
    and "mstr ! 0 \<noteq> CHR ''x''" and "mstr ! 0 \<noteq> CHR ''P''"
    and "sanSquares E b mstr = Some l"
    and "target = squareIndex E b (l_targetSq l)"
  shows "(sanIsCapture E b (l_piece l) target \<noteq> l_stringIsCapture l \<longrightarrow>
            moveFromSanString E b str = Move2 E 0 0) \<and>
         (sanIsCapture E b (l_piece l) target = l_stringIsCapture l \<longrightarrow>
            moveFromSanString E b str =
              (case sanPromotion E mstr (l_it l) of
                 None \<Rightarrow> Move2 E 0 0
               | Some promo \<Rightarrow>
                   sanFindMatch E b (l_piece l) target (l_sourceSq l) promo
                     (legalMoves E b) None)) \<and>
         (sanIsCapture E b (l_piece l) target \<longleftrightarrow>
            m_squares b target * m_sign b < 0 \<or>
            (target = m_enpassantSquare b \<and> l_piece l = Pawn E)) \<and>
         (m_width b \<le> 23 \<longrightarrow>
            (l_stringIsCapture l \<longleftrightarrow> 3 \<le> l_it l \<and> mstr ! (l_it l - 3) = CHR ''x''))"
proof -
  note eq = moveFromSanString_parsed [OF assms(1-7)]
  have "m_width b \<le> 23 \<longrightarrow>
          (l_stringIsCapture l \<longleftrightarrow> 3 \<le> l_it l \<and> mstr ! (l_it l - 3) = CHR ''x'')"
    using sanSquares_capture [OF assms(7) _ assms(5)] by blast
  then show ?thesis
    using eq unfolding assms(8) by (simp add: sanIsCapture_def)
qed

theorem moveFromSanString_capture_consistency_witness:
  "sanSquares sampleEnv samplePosition ''Nxd2'' =
     Some \<lparr>l_piece = 2, l_sourceSq = noSquare, l_targetSq = \<lparr>sq_file = 3, sq_rank = 1\<rparr>,
            l_stringIsCapture = True, l_it = 4\<rparr> \<and>
   \<not> sanIsCapture sampleEnv samplePosition 2 84 \<and>
   moveFromSanString sampleEnv samplePosition ''Nxd2'' = Move2 sampleEnv 0 0"
proof -
  let ?l = "\<lparr>l_piece = 2, l_sourceSq = noSquare, l_targetSq = \<lparr>sq_file = 3, sq_rank = 1\<rparr>,
             l_stringIsCapture = True, l_it = 4\<rparr>"
  have c: "''Nxd2'' = chopAnnotations ''Nxd2''" by code_simp
  have s: "sanSquares sampleEnv samplePosition ''Nxd2'' = Some ?l" by code_simp
  have t: "84 = squareIndex sampleEnv samplePosition (l_targetSq ?l)" by code_simp
  have k: "\<not> sanIsCapture sampleEnv samplePosition 2 84" by code_simp
  have "moveFromSanString sampleEnv samplePosition ''Nxd2'' = Move2 sampleEnv 0 0"
    using moveFromSanString_capture_consistency [OF _ c _ _ _ _ s t] k by simp
  with s k show ?thesis by (intro conjI)
qed

subsection \<open>What the decoders return\<close>

text \<open>
  Every path through the two decoders ends in \<^verbatim>\<open>Move(0, 0)\<close>, in a castling move
  built from the registry, in a legal move, or in the move between two valid
  squares.
\<close>

lemma sanFindMatch_range:
  "sanFindMatch E b piece target sourceSq promo moves None = Move2 E 0 0 \<or>
   sanFindMatch E b piece target sourceSq promo moves None \<in> set moves"
proof (cases "filter (sanMatches E b piece target sourceSq promo) moves")
  case Nil
  then show ?thesis by (simp add: sanFindMatch_None)
next
  case (Cons mv rest)
  then have "mv \<in> set (filter (sanMatches E b piece target sourceSq promo) moves)"
    by simp
  then have "mv \<in> set moves" by simp
  with Cons show ?thesis
    by (cases rest) (simp_all add: sanFindMatch_None)
qed

lemma moveFromSanString_range:
  "moveFromSanString E b str = Move2 E 0 0 \<or>
   (chopAnnotations str = ''O-O'' \<and>
    moveFromSanString E b str =
      Move (m_kingSquare b (m_side b)) (m_castleTarget b (m_side b) (KingSide E))
        (NoPiece E) (KingSide E)) \<or>
   (chopAnnotations str = ''O-O-O'' \<and>
    moveFromSanString E b str =
      Move (m_kingSquare b (m_side b)) (m_castleTarget b (m_side b) (QueenSide E))
        (NoPiece E) (QueenSide E)) \<or>
   moveFromSanString E b str \<in> set (legalMoves E b)"
proof -
  define mstr where "mstr = chopAnnotations str"
  have len: "length str < 2 \<or> 2 \<le> length str" "length mstr < 2 \<or> 2 \<le> length mstr"
    by arith+
  then consider (short) "length str < 2 \<or> length mstr < 2"
    | (castle) "2 \<le> length str" "2 \<le> length mstr" "take 3 mstr = ''O-O''"
    | (first) "2 \<le> length str" "2 \<le> length mstr" "take 3 mstr \<noteq> ''O-O''"
        "mstr ! 0 = CHR ''x'' \<or> mstr ! 0 = CHR ''P''"
    | (noparse) "2 \<le> length str" "2 \<le> length mstr" "take 3 mstr \<noteq> ''O-O''"
        "mstr ! 0 \<noteq> CHR ''x''" "mstr ! 0 \<noteq> CHR ''P''" "sanSquares E b mstr = None"
    | (parse) l where "2 \<le> length str" "2 \<le> length mstr" "take 3 mstr \<noteq> ''O-O''"
        "mstr ! 0 \<noteq> CHR ''x''" "mstr ! 0 \<noteq> CHR ''P''" "sanSquares E b mstr = Some l"
    by (cases "sanSquares E b mstr") blast+
  then show ?thesis
  proof cases
    case short
    then show ?thesis by (auto simp: moveFromSanString_def mstr_def Let_def)
  next
    case castle
    then show ?thesis
      unfolding moveFromSanString_def Let_def mstr_def [symmetric]
      by (simp add: not_less [symmetric])
  next
    case first
    then show ?thesis
      unfolding moveFromSanString_def Let_def mstr_def [symmetric]
      by (auto simp add: not_less [symmetric])
  next
    case noparse
    then show ?thesis
      unfolding moveFromSanString_def Let_def mstr_def [symmetric]
      by (simp add: not_less [symmetric])
  next
    case parse
    have eq: "moveFromSanString E b str =
           (if sanIsCapture E b (l_piece l) (squareIndex E b (l_targetSq l))
                 \<noteq> l_stringIsCapture l
            then Move2 E 0 0
            else (case sanPromotion E mstr (l_it l) of
                    None \<Rightarrow> Move2 E 0 0
                  | Some promo \<Rightarrow>
                      sanFindMatch E b (l_piece l) (squareIndex E b (l_targetSq l))
                        (l_sourceSq l) promo (legalMoves E b) None))"
      using parse by (intro moveFromSanString_parsed) (simp_all add: mstr_def)
    show ?thesis
    proof (cases "sanPromotion E mstr (l_it l)")
      case None
      with eq show ?thesis by simp
    next
      case (Some promo)
      with eq sanFindMatch_range [of E b "l_piece l" "squareIndex E b (l_targetSq l)"
          "l_sourceSq l" promo "legalMoves E b"]
      show ?thesis by (auto split: if_splits)
    qed
  qed
qed

lemma moveFromLongAlgebraicString_range:
  "moveFromLongAlgebraicString E b str = Move2 E 0 0 \<or>
   (4 \<le> length str \<and>
    isValidSquare b (squareOf E (mid str 0 2)) \<and>
    isValidSquare b (squareOf E (mid str 2 2)) \<and>
    sourceSquare (moveFromLongAlgebraicString E b str) =
      squareIndex E b (squareOf E (mid str 0 2)) \<and>
    targetSquare (moveFromLongAlgebraicString E b str) =
      squareIndex E b (squareOf E (mid str 2 2)))"
  by (simp add: moveFromLongAlgebraicString_def Move_def Let_def)

text \<open>
  Claim C9. The SAN decoder returns the null move, or the castling move built from
  the board's registry for the string \<open>O-O\<close> or \<open>O-O-O\<close>, or one of the legal
  moves; the LAN decoder returns the null move or the move between two valid
  squares. The null move is \<^verbatim>\<open>Move(0, 0)\<close>: source and target are both \<open>0\<close>, there
  is no promotion and no castling side. So when neither a legal move, nor the king
  square or a castling target, nor the index of a valid square is \<open>0\<close>, a decoder
  result that fails the dispatcher's test (source or target is \<open>0\<close>) is the null
  move itself.
\<close>

theorem decoders_fail_with_null_move:
  "(moveFromSanString E b str = Move2 E 0 0 \<or>
    (chopAnnotations str = ''O-O'' \<and>
     moveFromSanString E b str =
       Move (m_kingSquare b (m_side b)) (m_castleTarget b (m_side b) (KingSide E))
         (NoPiece E) (KingSide E)) \<or>
    (chopAnnotations str = ''O-O-O'' \<and>
     moveFromSanString E b str =
       Move (m_kingSquare b (m_side b)) (m_castleTarget b (m_side b) (QueenSide E))
         (NoPiece E) (QueenSide E)) \<or>
    moveFromSanString E b str \<in> set (legalMoves E b)) \<and>
   (moveFromLongAlgebraicString E b str = Move2 E 0 0 \<or>
    (4 \<le> length str \<and>
     isValidSquare b (squareOf E (mid str 0 2)) \<and>
     isValidSquare b (squareOf E (mid str 2 2)) \<and>
     sourceSquare (moveFromLongAlgebraicString E b str) =
       squareIndex E b (squareOf E (mid str 0 2)) \<and>
     targetSquare (moveFromLongAlgebraicString E b str) =
       squareIndex E b (squareOf E (mid str 2 2)))) \<and>
   sourceSquare (Move2 E 0 0) = 0 \<and> targetSquare (Move2 E 0 0) = 0 \<and>
   promotion (Move2 E 0 0) = NoPiece E \<and> castlingSide (Move2 E 0 0) = - 1 \<and>
   ((\<forall>mv \<in> set (legalMoves E b). sourceSquare mv \<noteq> 0 \<and> targetSquare mv \<noteq> 0) \<and>
    m_kingSquare b (m_side b) \<noteq> 0 \<and>
    m_castleTarget b (m_side b) (KingSide E) \<noteq> 0 \<and>
    m_castleTarget b (m_side b) (QueenSide E) \<noteq> 0 \<and>
    (\<forall>sq. isValidSquare b sq \<longrightarrow> squareIndex E b sq \<noteq> 0) \<longrightarrow>
    (sourceSquare (moveFromSanString E b str) = 0 \<or>
     targetSquare (moveFromSanString E b str) = 0 \<longrightarrow>
       moveFromSanString E b str = Move2 E 0 0) \<and>
    (sourceSquare (moveFromLongAlgebraicString E b str) = 0 \<or>
     targetSquare (moveFromLongAlgebraicString E b str) = 0 \<longrightarrow>
       moveFromLongAlgebraicString E b str = Move2 E 0 0))"
proof -
  note san = moveFromSanString_range [of E b str]
  note lan = moveFromLongAlgebraicString_range [of E b str]
  have null: "sourceSquare (Move2 E 0 0) = 0 \<and> targetSquare (Move2 E 0 0) = 0 \<and>
      promotion (Move2 E 0 0) = NoPiece E \<and> castlingSide (Move2 E 0 0) = - 1"
    by (simp add: Move2_def Move_def)
  have fail: "(sourceSquare (moveFromSanString E b str) = 0 \<or>
         targetSquare (moveFromSanString E b str) = 0 \<longrightarrow>
           moveFromSanString E b str = Move2 E 0 0) \<and>
        (sourceSquare (moveFromLongAlgebraicString E b str) = 0 \<or>
         targetSquare (moveFromLongAlgebraicString E b str) = 0 \<longrightarrow>
           moveFromLongAlgebraicString E b str = Move2 E 0 0)"
    if legal: "\<forall>mv \<in> set (legalMoves E b). sourceSquare mv \<noteq> 0 \<and> targetSquare mv \<noteq> 0"
      and king: "m_kingSquare b (m_side b) \<noteq> 0"
        "m_castleTarget b (m_side b) (KingSide E) \<noteq> 0"
        "m_castleTarget b (m_side b) (QueenSide E) \<noteq> 0"
      and index: "\<forall>sq. isValidSquare b sq \<longrightarrow> squareIndex E b sq \<noteq> 0"
  proof -
    have 1: "moveFromSanString E b str = Move2 E 0 0"
      if "sourceSquare (moveFromSanString E b str) = 0 \<or>
          targetSquare (moveFromSanString E b str) = 0"
      using san that legal king by (auto simp: Move_def)
    have 2: "moveFromLongAlgebraicString E b str = Move2 E 0 0"
      if "sourceSquare (moveFromLongAlgebraicString E b str) = 0 \<or>
          targetSquare (moveFromLongAlgebraicString E b str) = 0"
      using lan that index by auto
    from 1 2 show ?thesis by blast
  qed
  from san lan null fail show ?thesis by blast
qed

theorem decoders_fail_with_null_move_witness:
  "sourceSquare (moveFromSanString sampleEnv samplePosition ''Nd2'') = 0 \<and>
   moveFromSanString sampleEnv samplePosition ''Nd2'' = Move2 sampleEnv 0 0 \<and>
   targetSquare (moveFromLongAlgebraicString sampleEnv samplePosition ''h1f1z'') = 0 \<and>
   moveFromLongAlgebraicString sampleEnv samplePosition ''h1f1z'' = Move2 sampleEnv 0 0"
proof -
  have legal: "\<forall>mv \<in> set (legalMoves sampleEnv samplePosition).
                 sourceSquare mv \<noteq> 0 \<and> targetSquare mv \<noteq> 0"
    by code_simp
  have king: "m_kingSquare samplePosition (m_side samplePosition) \<noteq> 0 \<and>
      m_castleTarget samplePosition (m_side samplePosition) (KingSide sampleEnv) \<noteq> 0 \<and>
      m_castleTarget samplePosition (m_side samplePosition) (QueenSide sampleEnv) \<noteq> 0"
    by code_simp
  have index: "\<forall>sq. isValidSquare samplePosition sq \<longrightarrow>
                 squareIndex sampleEnv samplePosition sq \<noteq> 0"
    by (simp add: sampleEnv_def sampleSquareIndex_def isValidSquare_def samplePosition_def)
  have s: "sourceSquare (moveFromSanString sampleEnv samplePosition ''Nd2'') = 0"
    by code_simp
  have t: "targetSquare (moveFromLongAlgebraicString sampleEnv samplePosition ''h1f1z'') = 0"
    by code_simp
  from decoders_fail_with_null_move [of sampleEnv samplePosition "''Nd2''"] legal king index s
  have 1: "moveFromSanString sampleEnv samplePosition ''Nd2'' = Move2 sampleEnv 0 0"
    by blast
  from decoders_fail_with_null_move [of sampleEnv samplePosition "''h1f1z''"] legal king index t
  have 2: "moveFromLongAlgebraicString sampleEnv samplePosition ''h1f1z'' = Move2 sampleEnv 0 0"
    by blast
  from s 1 t 2 show ?thesis by (intro conjI)
qed

subsection \<open>Characters after the promotion letter\<close>

text \<open>
  Two strings that agree on their first \<open>n\<close> characters agree on every character
  and every substring read below \<open>n\<close>.
\<close>

lemma take_eq_nth: "take n xs = take n ys \<Longrightarrow> p < n \<Longrightarrow> xs ! p = ys ! p"
  by (metis nth_take)

lemma take_eq_mid: 
  assumes "take n xs = take n ys" and "p + k \<le> n"
  shows "mid xs p k = mid ys p k"
proof -
  have "mid zs p k = take k (drop p (take n zs))" for zs :: string
    using assms(2) by (simp add: mid_def drop_take min_def)
  with assms(1) show ?thesis by simp
qed

lemma take_eq_length:
  assumes "take n xs = take n ys" and "n \<le> length ys"
  shows "n \<le> length xs"
proof -
  have "length (take n xs) = length (take n ys)" using assms(1) by simp
  with assms(2) show ?thesis by simp
qed

lemma sanSource_unfold:
  assumes "\<not> isValidSquare b targetSq0"
    and "f0 = toAscii (mstr ! it0) - 97"
    and "fileOk \<longleftrightarrow> \<not> (f0 < 0 \<or> f0 \<ge> m_width b)"
    and "it1 = (if fileOk then it0 + 1 else it0)"
    and "digit = isDigit (mstr ! it1)"
    and "r0 = toAscii (mstr ! it1) - 49"
    and "it2 = (if digit then it1 + 1 else it1)"
    and "sourceSq = \<lparr>sq_file = (if fileOk then f0 else - 1), sq_rank = (if digit then r0 else - 1)\<rparr>"
  shows "sanSource E b mstr piece targetSq0 it0 =
     (if fileOk \<and> it1 = length mstr then None
      else if digit \<and> (r0 < 0 \<or> r0 \<ge> m_height b) then None
      else if it2 = length mstr
      then (if isValidSquare b sourceSq
            then Some \<lparr>l_piece = piece, l_sourceSq = noSquare, l_targetSq = sourceSq,
                       l_stringIsCapture = False, l_it = it2\<rparr>
            else None)
      else if mstr ! it2 = CHR ''x''
      then (if it2 + 1 = length mstr then None
            else sanTarget E mstr piece sourceSq True (it2 + 1))
      else sanTarget E mstr piece sourceSq False it2)"
  using assms(1) unfolding assms(2-8) sanSource_def Let_def
  by simp

lemma sanSource_prefix:
  assumes src: "sanSource E b mstr piece targetSq0 it0 = Some l"
    and lt: "l_it l < n" and n: "n \<le> length mstr"
    and tk: "take n mstr' = take n mstr"
  shows "sanSource E b mstr' piece targetSq0 it0 = Some l"
proof (cases "isValidSquare b targetSq0")
  case True
  with src show ?thesis by (simp add: sanSource_def)
next
  case False
  define f0 where "f0 = toAscii (mstr ! it0) - 97"
  define fileOk where "fileOk \<longleftrightarrow> \<not> (f0 < 0 \<or> f0 \<ge> m_width b)"
  define it1 where "it1 = (if fileOk then it0 + 1 else it0)"
  define digit where "digit = isDigit (mstr ! it1)"
  define r0 where "r0 = toAscii (mstr ! it1) - 49"
  define it2 where "it2 = (if digit then it1 + 1 else it1)"
  define sourceSq where
    "sourceSq = \<lparr>sq_file = (if fileOk then f0 else - 1), sq_rank = (if digit then r0 else - 1)\<rparr>"
  note A = sanSource_unfold [OF False f0_def fileOk_def it1_def digit_def r0_def it2_def
      sourceSq_def, of E piece]
  have n': "n \<le> length mstr'" using take_eq_length [OF tk n] .
  have ord: "it0 \<le> it1" "it1 \<le> it2" by (simp_all add: it1_def it2_def)
  from src [unfolded A] lt n
  have br: "\<not> (fileOk \<and> it1 = length mstr)" "\<not> (digit \<and> (r0 < 0 \<or> r0 \<ge> m_height b))"
      "it2 \<noteq> length mstr"
    by (auto split: if_splits)
  from src [unfolded A] br
  consider (cap) "mstr ! it2 = CHR ''x''" "it2 + 1 \<noteq> length mstr"
      "sanTarget E mstr piece sourceSq True (it2 + 1) = Some l"
    | (plain) "mstr ! it2 \<noteq> CHR ''x''" "sanTarget E mstr piece sourceSq False it2 = Some l"
    by (auto split: if_splits)
  then show ?thesis
  proof cases
    case cap
    from cap(3) have l: "it2 + 2 \<noteq> length mstr" "l_it l = it2 + 3"
      "l = \<lparr>l_piece = piece, l_sourceSq = sourceSq,
             l_targetSq = squareOf E (mid mstr (it2 + 1) 2),
             l_stringIsCapture = True, l_it = it2 + 3\<rparr>"
      by (auto simp: sanTarget_def split: if_splits)
    have e: "mstr' ! it0 = mstr ! it0" "mstr' ! it1 = mstr ! it1" "mstr' ! it2 = mstr ! it2"
      using ord l(2) lt by (auto intro!: take_eq_nth [OF tk])
    have m: "mid mstr' (it2 + 1) 2 = mid mstr (it2 + 1) 2"
      using l(2) lt by (intro take_eq_mid [OF tk]) simp
    have B: "sanSource E b mstr' piece targetSq0 it0 =
       (if fileOk \<and> it1 = length mstr' then None
        else if digit \<and> (r0 < 0 \<or> r0 \<ge> m_height b) then None
        else if it2 = length mstr'
        then (if isValidSquare b sourceSq
              then Some \<lparr>l_piece = piece, l_sourceSq = noSquare, l_targetSq = sourceSq,
                         l_stringIsCapture = False, l_it = it2\<rparr>
              else None)
        else if mstr' ! it2 = CHR ''x''
        then (if it2 + 1 = length mstr' then None
              else sanTarget E mstr' piece sourceSq True (it2 + 1))
        else sanTarget E mstr' piece sourceSq False it2)"
      by (rule sanSource_unfold [OF False f0_def [folded e(1)] fileOk_def it1_def
            digit_def [folded e(2)] r0_def [folded e(2)] it2_def sourceSq_def])
    have len: "it1 \<noteq> length mstr'" "it2 \<noteq> length mstr'" "it2 + 1 \<noteq> length mstr'"
      "it2 + 2 \<noteq> length mstr'"
      using ord l(2) lt n' by auto
    show ?thesis
      unfolding B using br len cap(1) e(3) l(3) m
      by (simp add: sanTarget_def)
  next
    case plain
    from plain(2) have l: "it2 + 1 \<noteq> length mstr" "l_it l = it2 + 2"
      "l = \<lparr>l_piece = piece, l_sourceSq = sourceSq,
             l_targetSq = squareOf E (mid mstr it2 2),
             l_stringIsCapture = False, l_it = it2 + 2\<rparr>"
      by (auto simp: sanTarget_def split: if_splits)
    have e: "mstr' ! it0 = mstr ! it0" "mstr' ! it1 = mstr ! it1" "mstr' ! it2 = mstr ! it2"
      using ord l(2) lt by (auto intro!: take_eq_nth [OF tk])
    have m: "mid mstr' it2 2 = mid mstr it2 2"
      using l(2) lt by (intro take_eq_mid [OF tk]) simp
    have B: "sanSource E b mstr' piece targetSq0 it0 =
       (if fileOk \<and> it1 = length mstr' then None
        else if digit \<and> (r0 < 0 \<or> r0 \<ge> m_height b) then None
        else if it2 = length mstr'
        then (if isValidSquare b sourceSq
              then Some \<lparr>l_piece = piece, l_sourceSq = noSquare, l_targetSq = sourceSq,
                         l_stringIsCapture = False, l_it = it2\<rparr>
              else None)
        else if mstr' ! it2 = CHR ''x''
        then (if it2 + 1 = length mstr' then None
              else sanTarget E mstr' piece sourceSq True (it2 + 1))
        else sanTarget E mstr' piece sourceSq False it2)"
      by (rule sanSource_unfold [OF False f0_def [folded e(1)] fileOk_def it1_def
            digit_def [folded e(2)] r0_def [folded e(2)] it2_def sourceSq_def])
    have len: "it1 \<noteq> length mstr'" "it2 \<noteq> length mstr'" "it2 + 1 \<noteq> length mstr'"
      using ord l(2) lt n' by auto
    show ?thesis
      unfolding B using br len plain(1) e(3) l(3) m
      by (simp add: sanTarget_def)
  qed
qed

lemma sanPieceType_cases:
  obtains (pawn) targetSq0 where "sanPieceType E b mstr = (Pawn E, targetSq0, 2)"
      "targetSq0 = squareOf E (mid mstr 0 2)" "isValidSquare b targetSq0"
    | (pawn') targetSq0 where "sanPieceType E b mstr = (Pawn E, targetSq0, 0)"
      "targetSq0 = squareOf E (mid mstr 0 2)" "\<not> isValidSquare b targetSq0"
    | (piece) piece where "sanPieceType E b mstr = (piece, noSquare, 1)"
      "piece = pieceCode E (mstr ! 0)" "0 \<le> piece" "piece \<noteq> NoPiece E"
  unfolding sanPieceType_def Let_def
  by (cases "pieceCode E (mstr ! 0) < 0"; cases "pieceCode E (mstr ! 0) = NoPiece E";
      cases "isValidSquare b (squareOf E (mid mstr 0 2))") auto

lemma noSquare_invalid [simp]: "\<not> isValidSquare b noSquare"
  by (simp add: isValidSquare_def noSquare_def)

lemma sanSource_it:
  assumes "sanSource E b mstr piece targetSq0 it0 = Some l"
    and "\<not> isValidSquare b targetSq0 \<longrightarrow> it0 \<le> 1"
    and "isValidSquare b targetSq0 \<longrightarrow> it0 = 2"
    and "2 \<le> length mstr"
  shows "2 \<le> l_it l \<and> l_it l \<le> length mstr \<and> it0 \<le> l_it l"
proof (cases "isValidSquare b targetSq0")
  case True
  with assms show ?thesis by (auto simp: sanSource_def)
next
  case False
  define f0 where "f0 = toAscii (mstr ! it0) - 97"
  define fileOk where "fileOk \<longleftrightarrow> \<not> (f0 < 0 \<or> f0 \<ge> m_width b)"
  define it1 where "it1 = (if fileOk then it0 + 1 else it0)"
  define digit where "digit = isDigit (mstr ! it1)"
  define r0 where "r0 = toAscii (mstr ! it1) - 49"
  define it2 where "it2 = (if digit then it1 + 1 else it1)"
  define sourceSq where
    "sourceSq = \<lparr>sq_file = (if fileOk then f0 else - 1), sq_rank = (if digit then r0 else - 1)\<rparr>"
  note A = sanSource_unfold [OF False f0_def fileOk_def it1_def digit_def r0_def it2_def
      sourceSq_def, of E piece]
  have ord: "it0 \<le> it1" "it1 \<le> it2" "it1 \<le> it0 + 1" "it2 \<le> it1 + 1"
    by (simp_all add: it1_def it2_def)
  from assms(1) [unfolded A]
  have br: "\<not> (fileOk \<and> it1 = length mstr)"
    by (auto split: if_splits)
  have it1: "it1 < length mstr"
    using br assms(2,4) False by (auto simp: it1_def)
  from assms(1) [unfolded A]
  consider (swap) "it2 = length mstr" "l_it l = it2" "isValidSquare b sourceSq"
    | (cap) "it2 \<noteq> length mstr" "it2 + 1 \<noteq> length mstr" "it2 + 2 \<noteq> length mstr" "l_it l = it2 + 3"
    | (plain) "it2 \<noteq> length mstr" "it2 + 1 \<noteq> length mstr" "l_it l = it2 + 2"
    by (auto simp: sanTarget_def split: if_splits)
  then show ?thesis
  proof cases
    case swap
    then show ?thesis using assms(4) ord by simp
  next
    case cap
    then show ?thesis using it1 ord by simp
  next
    case plain
    then show ?thesis using it1 ord by simp
  qed
qed

lemma sanSquares_it:
  assumes "sanSquares E b mstr = Some l" and "2 \<le> length mstr"
  shows "2 \<le> l_it l \<and> l_it l \<le> length mstr"
proof -
  obtain piece targetSq0 it0 where p: "sanPieceType E b mstr = (piece, targetSq0, it0)"
    by (cases "sanPieceType E b mstr") auto
  with assms(1) have s: "sanSource E b mstr piece targetSq0 it0 = Some l"
    by (auto simp: sanSquares_def split: option.splits if_splits)
  have "(\<not> isValidSquare b targetSq0 \<longrightarrow> it0 \<le> 1) \<and> (isValidSquare b targetSq0 \<longrightarrow> it0 = 2)"
    using p by (cases rule: sanPieceType_cases [of E b mstr]) auto
  with sanSource_it [OF s] assms(2) show ?thesis by simp
qed

lemma sanPieceType_prefix:
  assumes "take n mstr' = take n mstr" and "2 \<le> n"
  shows "sanPieceType E b mstr' = sanPieceType E b mstr"
proof -
  have "mstr' ! 0 = mstr ! 0" using assms by (intro take_eq_nth [OF assms(1)]) simp
  moreover have "mid mstr' 0 2 = mid mstr 0 2"
    using assms by (intro take_eq_mid [OF assms(1)]) simp
  ultimately show ?thesis by (simp add: sanPieceType_def Let_def)
qed

lemma sanSquares_prefix:
  assumes sq: "sanSquares E b mstr = Some l"
    and len: "2 \<le> length mstr"
    and lt: "l_it l < n" and n: "n \<le> length mstr"
    and tk: "take n mstr' = take n mstr"
  shows "sanSquares E b mstr' = Some l"
proof -
  obtain piece targetSq0 it0 where p: "sanPieceType E b mstr = (piece, targetSq0, it0)"
    by (cases "sanPieceType E b mstr") auto
  with sq have s: "sanSource E b mstr piece targetSq0 it0 = Some l"
    and v: "isValidSquare b (l_targetSq l)"
    by (auto simp: sanSquares_def split: option.splits if_splits)
  have n2: "2 \<le> n" using sanSquares_it [OF sq len] lt by simp
  have p': "sanPieceType E b mstr' = (piece, targetSq0, it0)"
    using sanPieceType_prefix [OF tk n2, of E b] p by simp
  from sanSource_prefix [OF s lt n tk] v p' show ?thesis
    by (simp add: sanSquares_def)
qed

lemma sanPromotion_prefix:
  assumes "it < length mstr"
    and "j = (if mstr ! it = CHR ''='' \<or> mstr ! it = CHR ''('' then it + 1 else it)"
    and "j < length mstr"
    and "take (Suc j) mstr' = take (Suc j) mstr"
  shows "sanPromotion E mstr' it = sanPromotion E mstr it"
proof -
  have n': "Suc j \<le> length mstr'"
    using take_eq_length [OF assms(4)] assms(3) by simp
  have it: "it \<le> j" using assms(2) by simp
  have e: "mstr' ! it = mstr ! it" "mstr' ! j = mstr ! j"
    using it by (auto intro!: take_eq_nth [OF assms(4)])
  show ?thesis
    using assms(1-3) n' it e
    by (auto simp: sanPromotion_def Let_def)
qed

lemma chopAnnotations_id:
  "s = [] \<or> \<not> isAnnotation (last s) \<Longrightarrow> chopAnnotations s = s"
  by (subst chopAnnotations.simps) (auto simp: isAnnotation_def)

lemma chopAnnotations_snoc:
  "isAnnotation c \<Longrightarrow> chopAnnotations (s @ [c]) = chopAnnotations s"
  by (subst chopAnnotations.simps) (auto simp: isAnnotation_def)

lemma chopAnnotations_mark:
  assumes "s = [] \<or> \<not> isAnnotation (last s)"
    and "mark = [] \<or> mark = ''#'' \<or> mark = ''+''"
  shows "chopAnnotations (s @ mark) = s"
  using assms(2) chopAnnotations_id [OF assms(1)]
    chopAnnotations_snoc [of "CHR ''#''" s] chopAnnotations_snoc [of "CHR ''+''" s]
  by (auto simp: isAnnotation_def)

lemma chopAnnotations_length: "length (chopAnnotations s) \<le> length s"
proof (induction s rule: chopAnnotations.induct)
  case (1 mstr)
  show ?case
    using 1 by (subst chopAnnotations.simps) (auto simp: le_diff_conv)
qed

lemma sanFindMatch_matches:
  assumes "sanFindMatch E b piece target sourceSq promo moves None \<noteq> Move2 E 0 0"
  shows "sanMatches E b piece target sourceSq promo
           (sanFindMatch E b piece target sourceSq promo moves None)"
proof (cases "filter (sanMatches E b piece target sourceSq promo) moves")
  case Nil
  with assms show ?thesis by (simp add: sanFindMatch_None)
next
  case (Cons mv rest)
  then have "mv \<in> set (filter (sanMatches E b piece target sourceSq promo) moves)"
    by simp
  then have "sanMatches E b piece target sourceSq promo mv" by simp
  with Cons assms show ?thesis
    by (cases rest) (simp_all add: sanFindMatch_None)
qed

lemma moveFromSanString_promotion_reached:
  assumes "promotion (moveFromSanString E b str) \<noteq> NoPiece E"
    and "mstr = chopAnnotations str"
  obtains l promo where "2 \<le> length str" "2 \<le> length mstr" "take 3 mstr \<noteq> ''O-O''"
    "mstr ! 0 \<noteq> CHR ''x''" "mstr ! 0 \<noteq> CHR ''P''" "sanSquares E b mstr = Some l"
    "sanIsCapture E b (l_piece l) (squareIndex E b (l_targetSq l)) = l_stringIsCapture l"
    "sanPromotion E mstr (l_it l) = Some promo" "promo \<noteq> NoPiece E"
proof -
  have null: "promotion (Move2 E 0 0) = NoPiece E" by (simp add: Move2_def Move_def)
  have len: "length str < 2 \<or> 2 \<le> length str" "length mstr < 2 \<or> 2 \<le> length mstr"
    by arith+
  then consider (short) "length str < 2 \<or> length mstr < 2"
    | (castle) "2 \<le> length str" "2 \<le> length mstr" "take 3 mstr = ''O-O''"
    | (first) "2 \<le> length str" "2 \<le> length mstr" "take 3 mstr \<noteq> ''O-O''"
        "mstr ! 0 = CHR ''x'' \<or> mstr ! 0 = CHR ''P''"
    | (noparse) "2 \<le> length str" "2 \<le> length mstr" "take 3 mstr \<noteq> ''O-O''"
        "mstr ! 0 \<noteq> CHR ''x''" "mstr ! 0 \<noteq> CHR ''P''" "sanSquares E b mstr = None"
    | (parse) l where "2 \<le> length str" "2 \<le> length mstr" "take 3 mstr \<noteq> ''O-O''"
        "mstr ! 0 \<noteq> CHR ''x''" "mstr ! 0 \<noteq> CHR ''P''" "sanSquares E b mstr = Some l"
    by (cases "sanSquares E b mstr") blast+
  then show ?thesis
  proof cases
    case short
    then have "moveFromSanString E b str = Move2 E 0 0"
      by (auto simp: moveFromSanString_def assms(2) Let_def)
    with assms(1) null show ?thesis by simp
  next
    case castle
    then have "promotion (moveFromSanString E b str) = NoPiece E"
      unfolding moveFromSanString_def Let_def assms(2) [symmetric]
      by (simp add: not_less [symmetric] Move_def Move2_def)
    with assms(1) show ?thesis by simp
  next
    case first
    then have "moveFromSanString E b str = Move2 E 0 0"
      unfolding moveFromSanString_def Let_def assms(2) [symmetric]
      by (auto simp add: not_less [symmetric])
    with assms(1) null show ?thesis by simp
  next
    case noparse
    then have "moveFromSanString E b str = Move2 E 0 0"
      unfolding moveFromSanString_def Let_def assms(2) [symmetric]
      by (simp add: not_less [symmetric])
    with assms(1) null show ?thesis by simp
  next
    case parse
    note eq = moveFromSanString_parsed [OF parse(1) assms(2) parse(2-6)]
    from eq assms(1) null
    have cap: "sanIsCapture E b (l_piece l) (squareIndex E b (l_targetSq l)) = l_stringIsCapture l"
      by (auto split: if_splits)
    from eq assms(1) null cap obtain promo where
      pr: "sanPromotion E mstr (l_it l) = Some promo"
      by (cases "sanPromotion E mstr (l_it l)") auto
    let ?r = "sanFindMatch E b (l_piece l) (squareIndex E b (l_targetSq l)) (l_sourceSq l)
                promo (legalMoves E b) None"
    from eq cap pr have r: "moveFromSanString E b str = ?r" by simp
    with assms(1) null have "?r \<noteq> Move2 E 0 0" by auto
    from sanFindMatch_matches [OF this] have "promotion ?r = promo"
      by (simp add: sanMatches_def)
    with r assms(1) have "promo \<noteq> NoPiece E" by simp
    with parse cap pr that show ?thesis by blast
  qed
qed

lemma moveFromSanString_prefix:
  assumes "promotion (moveFromSanString E b str) \<noteq> NoPiece E"
    and "take (Suc (sanPromotionLetter E b (chopAnnotations str))) (chopAnnotations str') =
         take (Suc (sanPromotionLetter E b (chopAnnotations str))) (chopAnnotations str)"
  shows "moveFromSanString E b str' = moveFromSanString E b str"
proof -
  define mstr where "mstr = chopAnnotations str"
  define mstr' where "mstr' = chopAnnotations str'"
  from moveFromSanString_promotion_reached [OF assms(1) mstr_def]
  obtain l promo where p: "2 \<le> length str" "2 \<le> length mstr" "take 3 mstr \<noteq> ''O-O''"
    "mstr ! 0 \<noteq> CHR ''x''" "mstr ! 0 \<noteq> CHR ''P''" "sanSquares E b mstr = Some l"
    "sanIsCapture E b (l_piece l) (squareIndex E b (l_targetSq l)) = l_stringIsCapture l"
    "sanPromotion E mstr (l_it l) = Some promo" "promo \<noteq> NoPiece E"
    by blast
  define j where "j = (if mstr ! l_it l = CHR ''='' \<or> mstr ! l_it l = CHR ''('' then l_it l + 1
                       else l_it l)"
  have j: "sanPromotionLetter E b mstr = j"
    by (simp add: sanPromotionLetter_def p(6) j_def)
  have tk: "take (Suc j) mstr' = take (Suc j) mstr"
    using assms(2) j unfolding mstr_def mstr'_def by simp
  note it = sanSquares_it [OF p(6) p(2)]
  have it_lt: "l_it l < length mstr" and j_lt: "j < length mstr"
    using p(8,9) it by (auto simp: sanPromotion_def j_def Let_def split: if_splits)
  have j_ge: "l_it l \<le> j" by (simp add: j_def)
  have n': "Suc j \<le> length mstr'"
    using take_eq_length [OF tk] j_lt by simp
  have len': "2 \<le> length mstr'" "2 \<le> length str'"
    using n' it j_ge chopAnnotations_length [of str'] by (simp_all add: mstr'_def)
  have "take 3 (take (Suc j) mstr') = take 3 (take (Suc j) mstr)" using tk by simp
  then have t3: "take 3 mstr' = take 3 mstr"
    using it j_ge by (simp add: min_def)
  have e0: "mstr' ! 0 = mstr ! 0" by (rule take_eq_nth [OF tk]) simp
  have sq': "sanSquares E b mstr' = Some l"
    using sanSquares_prefix [OF p(6) p(2) _ _ tk] j_ge j_lt by simp
  have pr': "sanPromotion E mstr' (l_it l) = Some promo"
    using sanPromotion_prefix [OF it_lt j_def j_lt tk, of E] p(8) by simp
  have 1: "moveFromSanString E b str' =
      sanFindMatch E b (l_piece l) (squareIndex E b (l_targetSq l)) (l_sourceSq l) promo
        (legalMoves E b) None"
    using moveFromSanString_parsed [OF len'(2) mstr'_def len'(1) _ _ _ sq'] t3 e0 p(3-5,7) pr'
    by simp
  have 2: "moveFromSanString E b str =
      sanFindMatch E b (l_piece l) (squareIndex E b (l_targetSq l)) (l_sourceSq l) promo
        (legalMoves E b) None"
    using moveFromSanString_parsed [OF p(1) mstr_def p(2-6)] p(7,8) by simp
  from 1 2 show ?thesis by simp
qed

lemma moveFromLongAlgebraicString_take:
  "moveFromLongAlgebraicString E b (take 5 str) = moveFromLongAlgebraicString E b str"
proof -
  have "mid (take 5 str) 0 2 = mid str 0 2" "mid (take 5 str) 2 2 = mid str 2 2"
    by (simp_all add: mid_def drop_take min_def)
  moreover have "length (take 5 str) < 4 \<longleftrightarrow> length str < 4"
    "length (take 5 str) > 4 \<longleftrightarrow> length str > 4" by auto
  moreover have "take 5 str ! 4 = str ! 4" by simp
  ultimately show ?thesis
    unfolding moveFromLongAlgebraicString_def by presburger
qed

lemma chopAnnotations_prefix:
  assumes "pre \<noteq> []" "\<not> isAnnotation (last pre)"
  shows "take (length pre) (chopAnnotations (pre @ extra)) = pre"
proof (induction extra rule: rev_induct)
  case Nil
  then show ?case using chopAnnotations_id [of pre] assms by simp
next
  case (snoc c extra)
  show ?case
  proof (cases "isAnnotation c")
    case True
    then have "chopAnnotations (pre @ extra @ [c]) = chopAnnotations (pre @ extra)"
      using chopAnnotations_snoc [of c "pre @ extra"] by simp
    with snoc show ?thesis by simp
  next
    case False
    then have "chopAnnotations (pre @ extra @ [c]) = pre @ extra @ [c]"
      using chopAnnotations_id [of "pre @ extra @ [c]"] by simp
    then show ?thesis by simp
  qed
qed

lemma sanPromotionLetter_bound:
  assumes "promotion (moveFromSanString E b str) \<noteq> NoPiece E"
  shows "sanPromotionLetter E b (chopAnnotations str) < length (chopAnnotations str)"
proof -
  define mstr where "mstr = chopAnnotations str"
  from moveFromSanString_promotion_reached [OF assms mstr_def]
  obtain l promo where p: "2 \<le> length mstr" "sanSquares E b mstr = Some l"
    "sanPromotion E mstr (l_it l) = Some promo" "promo \<noteq> NoPiece E"
    by blast
  note it = sanSquares_it [OF p(2) p(1)]
  have "(if mstr ! l_it l = CHR ''='' \<or> mstr ! l_it l = CHR ''('' then l_it l + 1 else l_it l)
          < length mstr"
    using p(3,4) it by (auto simp: sanPromotion_def Let_def split: if_splits)
  then show ?thesis
    by (simp add: sanPromotionLetter_def p(2) mstr_def [symmetric])
qed

lemma moveFromSanString_append:
  assumes "promotion (moveFromSanString E b str) \<noteq> NoPiece E"
    and "\<not> isAnnotation (chopAnnotations str ! sanPromotionLetter E b (chopAnnotations str))"
  shows "moveFromSanString E b
           (take (Suc (sanPromotionLetter E b (chopAnnotations str))) (chopAnnotations str) @ extra)
         = moveFromSanString E b str"
proof -
  let ?n = "sanPromotionLetter E b (chopAnnotations str)"
  let ?pre = "take (Suc ?n) (chopAnnotations str)"
  note n = sanPromotionLetter_bound [OF assms(1)]
  have len: "length ?pre = Suc ?n" using n by simp
  have ne: "?pre \<noteq> []" using len by auto
  have "last ?pre = ?pre ! ?n" using len ne by (simp add: last_conv_nth)
  also have "\<dots> = chopAnnotations str ! ?n" by simp
  finally have "\<not> isAnnotation (last ?pre)" using assms(2) by simp
  from chopAnnotations_prefix [OF ne this, of extra]
  have "take (Suc ?n) (chopAnnotations (?pre @ extra)) = ?pre" by (simp only: len)
  then show ?thesis
    by (intro moveFromSanString_prefix [OF assms(1)]) simp
qed

text \<open>
  Claim C10. If a string decodes (SAN) to a move with a promotion, every string whose
  chopped form agrees with its chopped form up to and including the promotion piece
  letter decodes to the same move: whatever follows the letter, in front of the
  trailing \<open>+\<close>, \<open>#\<close>, \<open>!\<close>, \<open>?\<close>, is ignored. In particular, when the letter is
  not itself one of those four characters, any characters may be appended to it. The
  LAN decoder reads the first five characters only.
\<close>

theorem decoders_ignore_trailing_characters:
  "(promotion (moveFromSanString E b str) \<noteq> NoPiece E \<and>
    take (Suc (sanPromotionLetter E b (chopAnnotations str))) (chopAnnotations str') =
      take (Suc (sanPromotionLetter E b (chopAnnotations str))) (chopAnnotations str) \<longrightarrow>
    moveFromSanString E b str' = moveFromSanString E b str) \<and>
   (promotion (moveFromSanString E b str) \<noteq> NoPiece E \<and>
    \<not> isAnnotation (chopAnnotations str ! sanPromotionLetter E b (chopAnnotations str)) \<longrightarrow>
    moveFromSanString E b
      (take (Suc (sanPromotionLetter E b (chopAnnotations str))) (chopAnnotations str) @ extra)
      = moveFromSanString E b str) \<and>
   moveFromLongAlgebraicString E b (take 5 str) = moveFromLongAlgebraicString E b str"
  using moveFromSanString_prefix [of E b str str'] moveFromSanString_append [of E b str extra]
    moveFromLongAlgebraicString_take [of E b str]
  by blast

theorem decoders_ignore_trailing_characters_witness:
  "moveFromSanString sampleEnv samplePosition ''e8=Q'' = Move 35 25 5 (- 1) \<and>
   moveFromSanString sampleEnv samplePosition ''e8=Qxyz+!'' = Move 35 25 5 (- 1) \<and>
   moveFromSanString sampleEnv samplePosition (''e8=Q'' @ '')??'') = Move 35 25 5 (- 1) \<and>
   moveFromLongAlgebraicString sampleEnv samplePosition ''e7e8q'' = Move 35 25 5 (- 1) \<and>
   moveFromLongAlgebraicString sampleEnv samplePosition ''e7e8qxyz'' = Move 35 25 5 (- 1)"
proof -
  have r: "moveFromSanString sampleEnv samplePosition ''e8=Q'' = Move 35 25 5 (- 1)"
    by code_simp
  then have p: "promotion (moveFromSanString sampleEnv samplePosition ''e8=Q'')
                  \<noteq> NoPiece sampleEnv"
    by (simp add: Move_def sampleEnv_def)
  have t: "take (Suc (sanPromotionLetter sampleEnv samplePosition (chopAnnotations ''e8=Q'')))
             (chopAnnotations ''e8=Qxyz+!'') =
           take (Suc (sanPromotionLetter sampleEnv samplePosition (chopAnnotations ''e8=Q'')))
             (chopAnnotations ''e8=Q'')"
    by code_simp
  have a: "\<not> isAnnotation (chopAnnotations ''e8=Q'' !
             sanPromotionLetter sampleEnv samplePosition (chopAnnotations ''e8=Q''))"
    by code_simp
  have e: "take (Suc (sanPromotionLetter sampleEnv samplePosition (chopAnnotations ''e8=Q'')))
             (chopAnnotations ''e8=Q'') = ''e8=Q''"
    by code_simp
  have l: "moveFromLongAlgebraicString sampleEnv samplePosition ''e7e8q'' = Move 35 25 5 (- 1)"
    by code_simp
  have k: "take 5 ''e7e8qxyz'' = ''e7e8q''" by simp
  note d = decoders_ignore_trailing_characters
    [of sampleEnv samplePosition "''e8=Q''" "''e8=Qxyz+!''" "'')??''"]
  from d p t r
  have 1: "moveFromSanString sampleEnv samplePosition ''e8=Qxyz+!'' = Move 35 25 5 (- 1)"
    by simp
  from d p a r
  have 2: "moveFromSanString sampleEnv samplePosition (''e8=Q'' @ '')??'') = Move 35 25 5 (- 1)"
    unfolding e by simp
  from decoders_ignore_trailing_characters [of sampleEnv samplePosition "''e7e8qxyz''"] k l
  have 3: "moveFromLongAlgebraicString sampleEnv samplePosition ''e7e8qxyz'' = Move 35 25 5 (- 1)"
    by simp
  from r 1 2 l 3 show ?thesis by (intro conjI)
qed

subsection \<open>The four branches of the SAN encoder\<close>

text \<open>
  The encoder's output in the pawn branch, the piece branch, the king branch
  without castling and the castling branch, on a board that \<^verbatim>\<open>undoMove\<close> restores.
\<close>

lemma sanMoveString_pawn:
  assumes "m_squares b (sourceSquare mv) * m_sign b = Pawn E"
    and "undoMove E (makeMove E b mv) = b"
  shows "fst (sanMoveString E b mv) =
     (let capture = (if targetSquare mv = m_enpassantSquare b then - Pawn E * m_sign b
                     else m_squares b (targetSquare mv))
      in sanTail E b mv (chessSquare E b (sourceSquare mv)) [] (capture \<noteq> NoPiece E) False
           capture (CHR 0x00)) @
     (if inCheck E (makeMove E b mv) (m_side (makeMove E b mv))
      then (if legalMoves E (makeMove E b mv) = [] then ''#'' else ''+'')
      else [])"
  using assms
  by (subst sanMoveString_mark) (simp add: sanMoveString_def Let_def)

lemma sanMoveString_piece:
  assumes "m_squares b (sourceSquare mv) * m_sign b \<noteq> Pawn E"
    and "m_squares b (sourceSquare mv) * m_sign b \<noteq> King E"
    and "undoMove E (makeMove E b mv) = b"
  shows "fst (sanMoveString E b mv) =
     (let piece = m_squares b (sourceSquare mv) * m_sign b;
          sq = chessSquare E b (sourceSquare mv);
          need = disambiguate E b (sourceSquare mv) (targetSquare mv) piece sq
                   (legalMoves E b) (False, False)
      in sanTail E b mv sq [pieceChar E piece] (fst need) (snd need)
           (m_squares b (targetSquare mv)) (CHR 0x00)) @
     (if inCheck E (makeMove E b mv) (m_side (makeMove E b mv))
      then (if legalMoves E (makeMove E b mv) = [] then ''#'' else ''+'')
      else [])"
  using assms
  by (subst sanMoveString_mark) (simp add: sanMoveString_def Let_def)

lemma sanMoveString_king:
  assumes "m_squares b (sourceSquare mv) * m_sign b \<noteq> Pawn E"
    and "m_squares b (sourceSquare mv) * m_sign b = King E"
    and "castlingSide mv = - 1"
    and "undoMove E (makeMove E b mv) = b"
  shows "fst (sanMoveString E b mv) =
     sanTail E b mv (chessSquare E b (sourceSquare mv)) [pieceChar E (King E)] False False
           (m_squares b (targetSquare mv)) (CHR 0x00) @
     (if inCheck E (makeMove E b mv) (m_side (makeMove E b mv))
      then (if legalMoves E (makeMove E b mv) = [] then ''#'' else ''+'')
      else [])"
  using assms
  by (subst sanMoveString_mark) (simp add: sanMoveString_def Let_def)

lemma sanMoveString_castle:
  assumes "m_squares b (sourceSquare mv) * m_sign b \<noteq> Pawn E"
    and "m_squares b (sourceSquare mv) * m_sign b = King E"
    and "castlingSide mv \<noteq> - 1"
  shows "fst (sanMoveString E b mv) =
     (if castlingSide mv = QueenSide E then ''O-O-O'' else ''O-O'') @
     (if inCheck E (makeMove E b mv) (m_side (makeMove E b mv))
      then (if legalMoves E (makeMove E b mv) = [] then ''#'' else ''+'')
      else [])"
  using assms
  by (subst sanMoveString_mark) (simp add: sanMoveString_def Let_def)

text \<open>
  Claim C8. Let two legal moves take pieces of the same kind, standing on different
  files, to the same target, and let every legal move of a piece of that kind to
  that target start on one of the two source squares. Then the SAN encoding of the
  move is: the piece letter (none for a pawn), the source file letter, \<open>x\<close> for a
  capture, the target square, the promotion, the check or mate mark; there is no
  source rank digit. The board is one that \<^verbatim>\<open>undoMove\<close> restores, on which every
  king move starts from the king square and a pawn that changes file captures.
\<close>

theorem sanMoveString_two_candidates:
  assumes undo: "undoMove E (makeMove E b mv) = b"
    and enum: "NoPiece E = 0" "Pawn E \<noteq> 0"
    and legal: "mv \<in> set (legalMoves E b)" "mv' \<in> set (legalMoves E b)"
    and piece: "m_squares b (sourceSquare mv') * m_sign b =
                m_squares b (sourceSquare mv) * m_sign b"
    and target: "targetSquare mv' = targetSquare mv"
    and files: "sq_file (chessSquare E b (sourceSquare mv'))
                  \<noteq> sq_file (chessSquare E b (sourceSquare mv))"
    and two: "\<forall>m \<in> set (legalMoves E b).
                m_squares b (sourceSquare m) * m_sign b =
                  m_squares b (sourceSquare mv) * m_sign b \<and>
                targetSquare m = targetSquare mv \<longrightarrow>
                sourceSquare m = sourceSquare mv \<or> sourceSquare m = sourceSquare mv'"
    and kings: "\<forall>m \<in> set (legalMoves E b).
                m_squares b (sourceSquare m) * m_sign b = King E \<longrightarrow>
                sourceSquare m = m_kingSquare b (m_side b)"
    and pawns: "\<forall>m \<in> set (legalMoves E b).
                m_squares b (sourceSquare m) * m_sign b = Pawn E \<and>
                sq_file (chessSquare E b (sourceSquare m))
                  \<noteq> sq_file (chessSquare E b (targetSquare m)) \<longrightarrow>
                m_squares b (targetSquare m) \<noteq> NoPiece E \<or>
                targetSquare m = m_enpassantSquare b"
  shows "fst (sanMoveString E b mv) =
           (if m_squares b (sourceSquare mv) * m_sign b = Pawn E then []
            else [pieceChar E (m_squares b (sourceSquare mv) * m_sign b)]) @
           [char_of (97 + sq_file (chessSquare E b (sourceSquare mv)))] @
           (if m_squares b (targetSquare mv) \<noteq> NoPiece E \<or>
               (m_squares b (sourceSquare mv) * m_sign b = Pawn E \<and>
                targetSquare mv = m_enpassantSquare b)
            then ''x'' else []) @
           squareString E (chessSquare E b (targetSquare mv)) @
           (if promotion mv \<noteq> 0 then [CHR ''='', pieceChar E (promotion mv)] else []) @
           (if inCheck E (makeMove E b mv) (m_side (makeMove E b mv))
            then (if legalMoves E (makeMove E b mv) = [] then ''#'' else ''+'')
            else [])"
proof -
  let ?piece = "m_squares b (sourceSquare mv) * m_sign b"
  have src: "sourceSquare mv' \<noteq> sourceSquare mv" using files by auto
  have notking: "?piece \<noteq> King E"
  proof
    assume k: "?piece = King E"
    then have "sourceSquare mv = m_kingSquare b (m_side b)"
      using kings legal(1) by blast
    moreover have "sourceSquare mv' = m_kingSquare b (m_side b)"
      using kings legal(2) piece k by simp
    ultimately show False using src by simp
  qed
  show ?thesis
  proof (cases "?piece = Pawn E")
    case True
    have p': "m_squares b (sourceSquare mv') * m_sign b = Pawn E"
      using piece True by simp
    have "sq_file (chessSquare E b (sourceSquare mv)) \<noteq> sq_file (chessSquare E b (targetSquare mv))
        \<or> sq_file (chessSquare E b (sourceSquare mv')) \<noteq> sq_file (chessSquare E b (targetSquare mv))"
      using files by auto
    then have cap: "m_squares b (targetSquare mv) \<noteq> NoPiece E \<or>
        targetSquare mv = m_enpassantSquare b"
    proof
      assume "sq_file (chessSquare E b (sourceSquare mv))
                \<noteq> sq_file (chessSquare E b (targetSquare mv))"
      with pawns legal(1) True show ?thesis by blast
    next
      assume "sq_file (chessSquare E b (sourceSquare mv'))
                \<noteq> sq_file (chessSquare E b (targetSquare mv))"
      with pawns legal(2) p' target show ?thesis by force
    qed
    have sign: "m_sign b \<noteq> 0" using True enum(2) by auto
    let ?capture = "if targetSquare mv = m_enpassantSquare b then - Pawn E * m_sign b
                    else m_squares b (targetSquare mv)"
    have capne: "?capture \<noteq> NoPiece E"
      using cap sign enum by auto
    have mark: "m_squares b (targetSquare mv) \<noteq> NoPiece E \<or>
        (m_squares b (sourceSquare mv) * m_sign b = Pawn E \<and>
         targetSquare mv = m_enpassantSquare b)"
      using cap True by blast
    have "fst (sanMoveString E b mv) =
        sanTail E b mv (chessSquare E b (sourceSquare mv)) [] (?capture \<noteq> NoPiece E) False
          ?capture (CHR 0x00) @
        (if inCheck E (makeMove E b mv) (m_side (makeMove E b mv))
         then (if legalMoves E (makeMove E b mv) = [] then ''#'' else ''+'')
         else [])"
      by (simp only: sanMoveString_pawn [OF True undo] Let_def)
    also have "sanTail E b mv (chessSquare E b (sourceSquare mv)) [] (?capture \<noteq> NoPiece E)
          False ?capture (CHR 0x00) =
        [char_of (97 + sq_file (chessSquare E b (sourceSquare mv)))] @ ''x'' @
        squareString E (chessSquare E b (targetSquare mv)) @
        (if promotion mv \<noteq> 0 then [CHR ''='', pieceChar E (promotion mv)] else [])"
      unfolding sanTail_def Let_def using capne by simp
    finally show ?thesis
      using True mark by simp
  next
    case False
    have nf: "\<exists>it \<in> set (legalMoves E b). sourceSquare it \<noteq> sourceSquare mv \<and>
          m_squares b (sourceSquare it) * m_sign b = ?piece \<and> targetSquare it = targetSquare mv \<and>
          sq_file (chessSquare E b (sourceSquare it)) \<noteq> sq_file (chessSquare E b (sourceSquare mv))"
      using legal(2) src piece target files by blast
    have nr: "\<not> (\<exists>it \<in> set (legalMoves E b). sourceSquare it \<noteq> sourceSquare mv \<and>
          m_squares b (sourceSquare it) * m_sign b = ?piece \<and> targetSquare it = targetSquare mv \<and>
          sq_file (chessSquare E b (sourceSquare it)) = sq_file (chessSquare E b (sourceSquare mv)) \<and>
          sq_rank (chessSquare E b (sourceSquare it)) \<noteq> sq_rank (chessSquare E b (sourceSquare mv)))"
    proof
      assume "\<exists>it \<in> set (legalMoves E b). sourceSquare it \<noteq> sourceSquare mv \<and>
          m_squares b (sourceSquare it) * m_sign b = ?piece \<and> targetSquare it = targetSquare mv \<and>
          sq_file (chessSquare E b (sourceSquare it)) = sq_file (chessSquare E b (sourceSquare mv)) \<and>
          sq_rank (chessSquare E b (sourceSquare it)) \<noteq> sq_rank (chessSquare E b (sourceSquare mv))"
      then obtain it where it: "it \<in> set (legalMoves E b)" "sourceSquare it \<noteq> sourceSquare mv"
          "m_squares b (sourceSquare it) * m_sign b = ?piece" "targetSquare it = targetSquare mv"
          "sq_file (chessSquare E b (sourceSquare it)) = sq_file (chessSquare E b (sourceSquare mv))"
        by blast
      with two have "sourceSquare it = sourceSquare mv'" by blast
      with it(5) files show False by simp
    qed
    have need: "disambiguate E b (sourceSquare mv) (targetSquare mv) ?piece
             (chessSquare E b (sourceSquare mv)) (legalMoves E b) (False, False) = (True, False)"
      unfolding disambiguate_eq using nf nr by simp
    have "fst (sanMoveString E b mv) =
        sanTail E b mv (chessSquare E b (sourceSquare mv)) [pieceChar E ?piece] True False
          (m_squares b (targetSquare mv)) (CHR 0x00) @
        (if inCheck E (makeMove E b mv) (m_side (makeMove E b mv))
         then (if legalMoves E (makeMove E b mv) = [] then ''#'' else ''+'')
         else [])"
      by (simp add: sanMoveString_piece [OF False notking undo] need Let_def)
    then show ?thesis
      using False by (simp add: sanTail_def Let_def)
  qed
qed

theorem sanMoveString_two_candidates_witness:
  "fst (sanMoveString sampleEnv samplePosition (Move 92 84 0 (- 1))) = ''Nbd2'' \<and>
   fst (sanMoveString sampleEnv samplePosition (Move 96 84 0 (- 1))) = ''Nfd2''"
proof -
  let ?E = sampleEnv and ?b = samplePosition
  have undo: "undoMove ?E (makeMove ?E ?b mv) = ?b" for mv
    by (simp add: sampleEnv_def sampleMakeMove_def sampleUndoMove_def samplePosition_def)
  have enum: "NoPiece ?E = 0" "Pawn ?E \<noteq> 0" by (simp_all add: sampleEnv_def)
  have legal: "Move 92 84 0 (- 1) \<in> set (legalMoves ?E ?b)"
    "Move 96 84 0 (- 1) \<in> set (legalMoves ?E ?b)"
    by code_simp+
  have piece: "m_squares ?b (sourceSquare (Move 96 84 0 (- 1))) * m_sign ?b =
               m_squares ?b (sourceSquare (Move 92 84 0 (- 1))) * m_sign ?b"
    by code_simp
  have target: "targetSquare (Move 96 84 0 (- 1)) = targetSquare (Move 92 84 0 (- 1))"
    by code_simp
  have files: "sq_file (chessSquare ?E ?b (sourceSquare (Move 96 84 0 (- 1))))
                 \<noteq> sq_file (chessSquare ?E ?b (sourceSquare (Move 92 84 0 (- 1))))"
    by code_simp
  have two: "\<forall>m \<in> set (legalMoves ?E ?b).
                m_squares ?b (sourceSquare m) * m_sign ?b =
                  m_squares ?b (sourceSquare (Move 92 84 0 (- 1))) * m_sign ?b \<and>
                targetSquare m = targetSquare (Move 92 84 0 (- 1)) \<longrightarrow>
                sourceSquare m = sourceSquare (Move 92 84 0 (- 1)) \<or>
                sourceSquare m = sourceSquare (Move 96 84 0 (- 1))"
    by code_simp
  have two': "\<forall>m \<in> set (legalMoves ?E ?b).
                m_squares ?b (sourceSquare m) * m_sign ?b =
                  m_squares ?b (sourceSquare (Move 96 84 0 (- 1))) * m_sign ?b \<and>
                targetSquare m = targetSquare (Move 96 84 0 (- 1)) \<longrightarrow>
                sourceSquare m = sourceSquare (Move 96 84 0 (- 1)) \<or>
                sourceSquare m = sourceSquare (Move 92 84 0 (- 1))"
    by code_simp
  have kings: "\<forall>m \<in> set (legalMoves ?E ?b).
                m_squares ?b (sourceSquare m) * m_sign ?b = King ?E \<longrightarrow>
                sourceSquare m = m_kingSquare ?b (m_side ?b)"
    by code_simp
  have pawns: "\<forall>m \<in> set (legalMoves ?E ?b).
                m_squares ?b (sourceSquare m) * m_sign ?b = Pawn ?E \<and>
                sq_file (chessSquare ?E ?b (sourceSquare m))
                  \<noteq> sq_file (chessSquare ?E ?b (targetSquare m)) \<longrightarrow>
                m_squares ?b (targetSquare m) \<noteq> NoPiece ?E \<or>
                targetSquare m = m_enpassantSquare ?b"
    by code_simp
  let ?rhs = "\<lambda>mv. (if m_squares ?b (sourceSquare mv) * m_sign ?b = Pawn ?E then []
            else [pieceChar ?E (m_squares ?b (sourceSquare mv) * m_sign ?b)]) @
           [char_of (97 + sq_file (chessSquare ?E ?b (sourceSquare mv)))] @
           (if m_squares ?b (targetSquare mv) \<noteq> NoPiece ?E \<or>
               (m_squares ?b (sourceSquare mv) * m_sign ?b = Pawn ?E \<and>
                targetSquare mv = m_enpassantSquare ?b)
            then ''x'' else []) @
           squareString ?E (chessSquare ?E ?b (targetSquare mv)) @
           (if promotion mv \<noteq> 0 then [CHR ''='', pieceChar ?E (promotion mv)] else []) @
           (if inCheck ?E (makeMove ?E ?b mv) (m_side (makeMove ?E ?b mv))
            then (if legalMoves ?E (makeMove ?E ?b mv) = [] then ''#'' else ''+'')
            else [])"
  have v1: "?rhs (Move 92 84 0 (- 1)) = ''Nbd2''" by code_simp
  have v2: "?rhs (Move 96 84 0 (- 1)) = ''Nfd2''" by code_simp
  have r1: "fst (sanMoveString ?E ?b (Move 92 84 0 (- 1))) = ?rhs (Move 92 84 0 (- 1))"
    by (rule sanMoveString_two_candidates
          [OF undo enum legal piece target files two kings pawns])
  have r2: "fst (sanMoveString ?E ?b (Move 96 84 0 (- 1))) = ?rhs (Move 96 84 0 (- 1))"
    by (rule sanMoveString_two_candidates
          [OF undo enum legal(2,1) piece [symmetric] target [symmetric] files [symmetric]
            two' kings pawns])
  from trans [OF r1 v1] trans [OF r2 v2] show ?thesis by (intro conjI)
qed

subsection \<open>Characters of files and ranks\<close>

text \<open>
  What the decoder reads from the letter of a file below 23 and the digit of a rank
  below 9.
\<close>

lemma char_of_int_eq: "0 \<le> n \<Longrightarrow> n < 256 \<Longrightarrow> char_of (n::int) = c \<longleftrightarrow> n = of_char c"
  by (auto simp: char_of_eq_iff take_bit_eq_mod)

lemma of_char_fileChar: "0 \<le> f \<Longrightarrow> f < 23 \<Longrightarrow> (of_char (fileChar f) :: int) = 97 + f"
  by (simp add: fileChar_def)

lemma of_char_rankChar: "0 \<le> r \<Longrightarrow> r < 9 \<Longrightarrow> (of_char (rankChar r) :: int) = 49 + r"
  by (simp add: rankChar_def)

lemma toAscii_fileChar: "0 \<le> f \<Longrightarrow> f < 23 \<Longrightarrow> toAscii (fileChar f) = 97 + f"
  by (simp add: toAscii_def of_char_fileChar Let_def)

lemma toAscii_rankChar: "0 \<le> r \<Longrightarrow> r < 9 \<Longrightarrow> toAscii (rankChar r) = 49 + r"
  by (simp add: toAscii_def of_char_rankChar Let_def)

lemma isDigit_rankChar: "0 \<le> r \<Longrightarrow> r < 9 \<Longrightarrow> isDigit (rankChar r)"
  by (simp add: isDigit_def of_char_rankChar)

lemma isDigit_fileChar: "0 \<le> f \<Longrightarrow> f < 23 \<Longrightarrow> \<not> isDigit (fileChar f)"
  by (simp add: isDigit_def of_char_fileChar)

lemma fileChar_neq:
  assumes "0 \<le> f" "f < 23"
  shows "fileChar f \<noteq> CHR ''x''" "fileChar f \<noteq> CHR ''P''" "fileChar f \<noteq> CHR ''O''"
    "fileChar f \<noteq> CHR ''=''" "fileChar f \<noteq> CHR ''(''"
  using assms by (auto simp: fileChar_def char_of_int_eq)

lemma rankChar_neq:
  assumes "0 \<le> r" "r < 9"
  shows "rankChar r \<noteq> CHR ''+''" "rankChar r \<noteq> CHR ''#''" "rankChar r \<noteq> CHR ''!''"
    "rankChar r \<noteq> CHR ''?''" "rankChar r \<noteq> CHR ''x''"
  using assms by (auto simp: rankChar_def char_of_int_eq)

subsection \<open>The SAN decoder on the strings the encoder writes\<close>

text \<open>
  The squares the decoder reads from a pawn's string (target, or source file, \<open>x\<close>
  and target) and from a piece's string (letter, source file, source rank, \<open>x\<close>,
  target, each of the middle three present or not), and the decoder's result on a
  string that is parsed to constraints only one legal move meets.
\<close>

lemma valid_bounds:
  assumes "lexiconOk E b" "isValidSquare b sq"
  shows "0 \<le> sq_file sq" "sq_file sq < 23" "0 \<le> sq_rank sq" "sq_rank sq < 9"
    "sq_file sq < m_width b" "sq_rank sq < m_height b"
  using assms by (auto simp: lexiconOk_def isValidSquare_def)

lemma squareString_eq:
  assumes "lexiconOk E b" "isValidSquare b sq"
  shows "squareString E sq = [fileChar (sq_file sq), rankChar (sq_rank sq)]"
  using assms by (simp add: lexiconOk_def fileChar_def rankChar_def)

lemma squareOf_token:
  assumes "lexiconOk E b" "isValidSquare b sq"
  shows "squareOf E [fileChar (sq_file sq), rankChar (sq_rank sq)] = sq"
  using assms squareString_eq [OF assms] by (auto simp: lexiconOk_def)

lemma squareOf_x_invalid:
  assumes "lexiconOk E b"
  shows "\<not> isValidSquare b (squareOf E [c, CHR ''x''])"
proof
  assume v: "isValidSquare b (squareOf E [c, CHR ''x''])"
  let ?sq = "squareOf E [c, CHR ''x'']"
  from assms v have "squareString E ?sq = [c, CHR ''x'']"
    unfolding lexiconOk_def by blast
  with squareString_eq [OF assms v] have "rankChar (sq_rank ?sq) = CHR ''x''" by simp
  with rankChar_neq(5) valid_bounds(3,4) [OF assms v] show False by blast
qed

lemma pawn_letter:
  assumes "lexiconOk E b" "0 \<le> f" "f < m_width b"
  shows "(if pieceCode E (fileChar f) < 0 then NoPiece E else pieceCode E (fileChar f)) = NoPiece E"
  using assms by (auto simp: lexiconOk_def fileChar_def)

lemma sanSquares_pawn_push:
  assumes lex: "lexiconOk E b" and v: "isValidSquare b tsq"
  shows "sanSquares E b ([fileChar (sq_file tsq), rankChar (sq_rank tsq)] @ pro) =
           Some \<lparr>l_piece = Pawn E, l_sourceSq = noSquare, l_targetSq = tsq,
                  l_stringIsCapture = False, l_it = 2\<rparr>"
proof -
  let ?m = "[fileChar (sq_file tsq), rankChar (sq_rank tsq)] @ pro"
  note b = valid_bounds [OF lex v]
  have "sanPieceType E b ?m = (Pawn E, tsq, 2)"
    using pawn_letter [OF lex b(1,5)] squareOf_token [OF lex v] v
    by (simp add: sanPieceType_def mid_def Let_def)
  then show ?thesis
    using v by (simp add: sanSquares_def sanSource_def)
qed

lemma sanSquares_pawn_capture:
  assumes lex: "lexiconOk E b" and v: "isValidSquare b tsq"
    and f: "0 \<le> f" "f < m_width b"
  shows "sanSquares E b ([fileChar f, CHR ''x'', fileChar (sq_file tsq), rankChar (sq_rank tsq)] @ pro) =
           Some \<lparr>l_piece = Pawn E, l_sourceSq = \<lparr>sq_file = f, sq_rank = - 1\<rparr>, l_targetSq = tsq,
                  l_stringIsCapture = True, l_it = 4\<rparr>"
proof -
  let ?m = "[fileChar f, CHR ''x'', fileChar (sq_file tsq), rankChar (sq_rank tsq)] @ pro"
  have f23: "f < 23" using lex f by (simp add: lexiconOk_def)
  have pt: "sanPieceType E b ?m = (Pawn E, squareOf E [fileChar f, CHR ''x''], 0)"
    using pawn_letter [OF lex f] squareOf_x_invalid [OF lex]
    by (simp add: sanPieceType_def mid_def Let_def)
  have "sanSource E b ?m (Pawn E) (squareOf E [fileChar f, CHR ''x'']) 0 =
      Some \<lparr>l_piece = Pawn E, l_sourceSq = \<lparr>sq_file = f, sq_rank = - 1\<rparr>, l_targetSq = tsq,
                  l_stringIsCapture = True, l_it = 4\<rparr>"
    using squareOf_x_invalid [OF lex] f f23 squareOf_token [OF lex v]
    by (simp add: sanSource_def sanTarget_def Let_def toAscii_fileChar isDigit_x mid_def)
  with pt v show ?thesis
    by (simp add: sanSquares_def)
qed

lemma sanSquares_piece:
  assumes lex: "lexiconOk E b" and v: "isValidSquare b tsq" and vs: "isValidSquare b ssq"
    and L: "pieceCode E L = piece" "0 < piece"
  shows "sanSquares E b
           ([L] @ (if nf then [fileChar (sq_file ssq)] else []) @
            (if nr then [rankChar (sq_rank ssq)] else []) @
            (if cap then ''x'' else []) @
            [fileChar (sq_file tsq), rankChar (sq_rank tsq)]) =
         Some \<lparr>l_piece = piece,
                l_sourceSq = \<lparr>sq_file = (if nf then sq_file ssq else - 1),
                              sq_rank = (if nr then sq_rank ssq else - 1)\<rparr>,
                l_targetSq = tsq, l_stringIsCapture = cap,
                l_it = 3 + (if nf then 1 else 0) + (if nr then 1 else 0) + (if cap then 1 else 0)\<rparr>"
proof -
  note bt = valid_bounds [OF lex v] and bs = valid_bounds [OF lex vs]
  have w: "m_width b \<le> 23" using lex by (simp add: lexiconOk_def)
  have np: "NoPiece E = 0" using lex by (simp add: lexiconOk_def)
  have pt: "sanPieceType E b (L # rest) = (piece, noSquare, 1)" for rest
    using L np by (simp add: sanPieceType_def Let_def)
  note facts = toAscii_fileChar [OF bt(1,2)] toAscii_fileChar [OF bs(1,2)]
    toAscii_rankChar [OF bt(3,4)] toAscii_rankChar [OF bs(3,4)]
    isDigit_fileChar [OF bt(1,2)] isDigit_fileChar [OF bs(1,2)]
    isDigit_rankChar [OF bt(3,4)] isDigit_rankChar [OF bs(3,4)]
    fileChar_neq(1) [OF bt(1,2)] fileChar_neq(1) [OF bs(1,2)]
    rankChar_neq(5) [OF bt(3,4)] rankChar_neq(5) [OF bs(3,4)]
    toAscii_x isDigit_x squareOf_token [OF lex v] bt bs w v
    noSquare_invalid [of b, unfolded noSquare_def]
  have src: "sanSource E b
           ([L] @ (if nf then [fileChar (sq_file ssq)] else []) @
            (if nr then [rankChar (sq_rank ssq)] else []) @
            (if cap then ''x'' else []) @
            [fileChar (sq_file tsq), rankChar (sq_rank tsq)]) piece noSquare 1 =
         Some \<lparr>l_piece = piece,
                l_sourceSq = \<lparr>sq_file = (if nf then sq_file ssq else - 1),
                              sq_rank = (if nr then sq_rank ssq else - 1)\<rparr>,
                l_targetSq = tsq, l_stringIsCapture = cap,
                l_it = 3 + (if nf then 1 else 0) + (if nr then 1 else 0) + (if cap then 1 else 0)\<rparr>"
  proof (cases nf; cases nr; cases cap)
    assume "\<not> nf" "\<not> nr" "\<not> cap"
    then show ?thesis
      using facts
      by (simp add: sanSource_def sanTarget_def Let_def mid_def noSquare_def isValidSquare_def)
  next
    assume "\<not> nf" "\<not> nr" "cap"
    then show ?thesis
      using facts by (simp add: sanSource_def sanTarget_def Let_def mid_def noSquare_def)
  next
    assume "\<not> nf" "nr" "\<not> cap"
    then show ?thesis
      using facts by (simp add: sanSource_def sanTarget_def Let_def mid_def noSquare_def)
  next
    assume "\<not> nf" "nr" "cap"
    then show ?thesis
      using facts by (simp add: sanSource_def sanTarget_def Let_def mid_def noSquare_def)
  next
    assume "nf" "\<not> nr" "\<not> cap"
    then show ?thesis
      using facts by (simp add: sanSource_def sanTarget_def Let_def mid_def noSquare_def)
  next
    assume "nf" "\<not> nr" "cap"
    then show ?thesis
      using facts by (simp add: sanSource_def sanTarget_def Let_def mid_def noSquare_def)
  next
    assume "nf" "nr" "\<not> cap"
    then show ?thesis
      using facts by (simp add: sanSource_def sanTarget_def Let_def mid_def noSquare_def)
  next
    assume "nf" "nr" "cap"
    then show ?thesis
      using facts by (simp add: sanSource_def sanTarget_def Let_def mid_def noSquare_def)
  qed
  show ?thesis
    using pt src v by (simp add: sanSquares_def)
qed

lemma filter_single:
  assumes "distinct L" "mv \<in> set L" "P mv" "\<forall>x \<in> set L. P x \<longrightarrow> x = mv"
  shows "filter P L = [mv]"
proof -
  have "filter P L = filter (\<lambda>x. x = mv) L"
    using assms(3,4) by (intro filter_cong) auto
  also have "\<dots> = [mv]"
    using assms(1,2) by (induction L) (auto simp: filter_empty_conv)
  finally show ?thesis .
qed

lemma move_eqI:
  "sourceSquare m = sourceSquare m' \<Longrightarrow> targetSquare m = targetSquare m' \<Longrightarrow>
   promotion m = promotion m' \<Longrightarrow> castlingSide m = castlingSide m' \<Longrightarrow> m = (m' :: move)"
  by simp

lemma decode_core:
  assumes core: "2 \<le> length core" "\<not> isAnnotation (last core)"
    and mark: "mark = [] \<or> mark = ''#'' \<or> mark = ''+''"
    and first: "take 3 core \<noteq> ''O-O''" "core ! 0 \<noteq> CHR ''x''" "core ! 0 \<noteq> CHR ''P''"
    and sq: "sanSquares E b core = Some l"
    and cap: "sanIsCapture E b (l_piece l) (squareIndex E b (l_targetSq l)) = l_stringIsCapture l"
    and pro: "sanPromotion E core (l_it l) = Some promo"
    and legal: "distinct (legalMoves E b)" "mv \<in> set (legalMoves E b)"
    and match: "sanMatches E b (l_piece l) (squareIndex E b (l_targetSq l)) (l_sourceSq l) promo mv"
    and uniq: "\<forall>m \<in> set (legalMoves E b).
        sanMatches E b (l_piece l) (squareIndex E b (l_targetSq l)) (l_sourceSq l) promo m
          \<longrightarrow> m = mv"
  shows "moveFromSanString E b (core @ mark) = mv"
proof -
  have chop: "core = chopAnnotations (core @ mark)"
    using chopAnnotations_mark [of core mark] core(2) mark by simp
  have len: "2 \<le> length (core @ mark)" using core(1) by simp
  have f: "filter (sanMatches E b (l_piece l) (squareIndex E b (l_targetSq l)) (l_sourceSq l) promo)
          (legalMoves E b) = [mv]"
    using filter_single [OF legal match uniq] .
  have "moveFromSanString E b (core @ mark) =
      sanFindMatch E b (l_piece l) (squareIndex E b (l_targetSq l)) (l_sourceSq l) promo
        (legalMoves E b) None"
    unfolding moveFromSanString_parsed [OF len chop core(1) first sq] cap pro by simp
  also have "\<dots> = mv"
    unfolding sanFindMatch_None f by simp
  finally show ?thesis .
qed

lemma sanTail_explicit:
  "sanTail E b mv sq str needFile needRank capture (CHR 0x00) =
     str @ (if needFile then [fileChar (sq_file sq)] else []) @
     (if needRank then [rankChar (sq_rank sq)] else []) @
     (if capture \<noteq> NoPiece E then ''x'' else []) @
     squareString E (chessSquare E b (targetSquare mv)) @
     (if promotion mv \<noteq> 0 then [CHR ''='', pieceChar E (promotion mv)] else [])"
  by (simp add: sanTail_def fileChar_def rankChar_def Let_def)

lemma mark_cases:
  "(if c then (if e then ''#'' else ''+'') else []) = [] \<or>
   (if c then (if e then ''#'' else ''+'') else []) = ''#'' \<or>
   (if c then (if e then ''#'' else ''+'') else []) = ''+''"
  by simp

lemma moveOk_D:
  assumes "moveOk E b mv"
  shows "sourceSquare mv \<noteq> 0" "targetSquare mv \<noteq> 0"
    "isValidSquare b (chessSquare E b (sourceSquare mv))"
    "isValidSquare b (chessSquare E b (targetSquare mv))"
    "squareIndex E b (chessSquare E b (sourceSquare mv)) = sourceSquare mv"
    "squareIndex E b (chessSquare E b (targetSquare mv)) = targetSquare mv"
    "0 < m_squares b (sourceSquare mv) * m_sign b"
    "castlingSide mv = - 1 \<Longrightarrow> m_squares b (targetSquare mv) * m_sign b \<le> 0"
  using assms by (simp_all add: moveOk_def Let_def)

lemma moveOk_piece:
  assumes "moveOk E b mv" "m_squares b (sourceSquare mv) * m_sign b \<noteq> Pawn E"
  shows "pieceCode E (pieceChar E (m_squares b (sourceSquare mv) * m_sign b)) =
           m_squares b (sourceSquare mv) * m_sign b"
    "pieceChar E (m_squares b (sourceSquare mv) * m_sign b) \<noteq> CHR ''x''"
    "pieceChar E (m_squares b (sourceSquare mv) * m_sign b) \<noteq> CHR ''P''"
    "pieceChar E (m_squares b (sourceSquare mv) * m_sign b) \<noteq> CHR ''O''"
    "promotion mv = NoPiece E"
  using assms by (simp_all add: moveOk_def Let_def)

lemma moveOk_promotion:
  assumes "moveOk E b mv" "promotion mv \<noteq> NoPiece E"
  shows "pieceCode E (pieceChar E (promotion mv)) = promotion mv"
    "\<not> isAnnotation (pieceChar E (promotion mv))"
    "pieceCode E (toUpper E (toLower E (pieceChar E (promotion mv)))) = promotion mv"
    "\<not> isAnnotation (toLower E (pieceChar E (promotion mv)))"
  using assms by (simp_all add: moveOk_def Let_def)

lemma moveOk_king:
  assumes "moveOk E b mv" "m_squares b (sourceSquare mv) * m_sign b = King E"
  shows "King E \<noteq> Pawn E" "sourceSquare mv = m_kingSquare b (m_side b)"
  using assms by (simp_all add: moveOk_def Let_def)

lemma moveOk_castle:
  assumes "moveOk E b mv" "castlingSide mv \<noteq> - 1"
  shows "m_squares b (sourceSquare mv) * m_sign b = King E"
    "castlingSide mv = KingSide E \<or> castlingSide mv = QueenSide E"
    "KingSide E \<noteq> QueenSide E"
    "targetSquare mv = m_castleTarget b (m_side b) (castlingSide mv)"
    "promotion mv = NoPiece E"
  using assms by (simp_all add: moveOk_def Let_def)

lemma moveOk_not_castle:
  assumes "moveOk E b mv" "m_squares b (sourceSquare mv) * m_sign b \<noteq> King E"
  shows "castlingSide mv = - 1"
  using assms moveOk_castle(1) by blast

lemma moveOk_pawn_not_castle:
  assumes "moveOk E b mv" "m_squares b (sourceSquare mv) * m_sign b = Pawn E"
  shows "castlingSide mv = - 1"
  using assms moveOk_castle(1) [OF assms(1)] moveOk_king(1) [OF assms(1)] by force

lemma sanPromotion_end: "sanPromotion E mstr (length mstr) = Some (NoPiece E)"
  by (simp add: sanPromotion_def)

lemma sanPromotion_eq:
  assumes "length pre = n" "pieceCode E c \<noteq> NoPiece E"
  shows "sanPromotion E (pre @ [CHR ''='', c]) n = Some (pieceCode E c)"
  using assms by (auto simp: sanPromotion_def Let_def nth_append)

subsection \<open>The round trip through SAN\<close>

text \<open>
  One lemma for each branch of the encoder: pawn, castling, king, other piece.
\<close>

lemma positionOk_D:
  assumes "positionOk E b"
  shows "distinct (legalMoves E b)"
    "mv \<in> set (legalMoves E b) \<Longrightarrow> moveOk E b mv"
  using assms by (simp_all add: positionOk_def)

lemma positionOk_pawns:
  assumes "positionOk E b" "m \<in> set (legalMoves E b)" "m' \<in> set (legalMoves E b)"
    "m_squares b (sourceSquare m) * m_sign b = Pawn E"
    "m_squares b (sourceSquare m') * m_sign b = Pawn E"
    "targetSquare m = targetSquare m'"
    "(m_squares b (targetSquare m) = NoPiece E \<and> targetSquare m \<noteq> m_enpassantSquare b) \<or>
     sq_file (chessSquare E b (sourceSquare m)) = sq_file (chessSquare E b (sourceSquare m'))"
  shows "sourceSquare m = sourceSquare m'"
  using assms unfolding positionOk_def by blast

lemma san_round_trip_pawn:
  assumes lex: "lexiconOk E b" and pos: "positionOk E b"
    and legal: "mv \<in> set (legalMoves E b)"
    and undo: "undoMove E (makeMove E b mv) = b"
    and pawn: "m_squares b (sourceSquare mv) * m_sign b = Pawn E"
  shows "moveFromSanString E b (fst (sanMoveString E b mv)) = mv"
proof -
  note ok = positionOk_D(2) [OF pos legal]
  note d = moveOk_D [OF ok]
  let ?ssq = "chessSquare E b (sourceSquare mv)"
  let ?tsq = "chessSquare E b (targetSquare mv)"
  let ?capture = "if targetSquare mv = m_enpassantSquare b then - Pawn E * m_sign b
                  else m_squares b (targetSquare mv)"
  let ?mark = "if inCheck E (makeMove E b mv) (m_side (makeMove E b mv))
               then (if legalMoves E (makeMove E b mv) = [] then ''#'' else ''+'')
               else []"
  let ?pro = "if promotion mv \<noteq> 0 then [CHR ''='', pieceChar E (promotion mv)] else []"
  let ?pre = "if ?capture \<noteq> NoPiece E then [fileChar (sq_file ?ssq), CHR ''x''] else []"
  let ?tok = "[fileChar (sq_file ?tsq), rankChar (sq_rank ?tsq)]"
  let ?core = "?pre @ ?tok @ ?pro"
  have np: "NoPiece E = 0" using lex by (simp add: lexiconOk_def)
  have pawn0: "0 < Pawn E" using d(7) pawn by simp
  have sign: "m_sign b \<noteq> 0" using d(7) by auto
  have nc: "castlingSide mv = - 1" using moveOk_pawn_not_castle [OF ok pawn] .
  note bs = valid_bounds [OF lex d(3)] and bt = valid_bounds [OF lex d(4)]
  have enc: "fst (sanMoveString E b mv) = ?core @ ?mark"
    unfolding sanMoveString_pawn [OF pawn undo] Let_def sanTail_explicit
    by (simp add: squareString_eq [OF lex d(4)])
  have capture: "sanIsCapture E b (Pawn E) (targetSquare mv) \<longleftrightarrow> ?capture \<noteq> NoPiece E"
  proof (cases "targetSquare mv = m_enpassantSquare b")
    case True
    then show ?thesis using pawn0 sign np by (simp add: sanIsCapture_def)
  next
    case False
    have "m_squares b (targetSquare mv) * m_sign b \<le> 0" using d(8) [OF nc] .
    then have "m_squares b (targetSquare mv) * m_sign b < 0 \<longleftrightarrow> m_squares b (targetSquare mv) \<noteq> 0"
      using sign by (auto simp: less_le)
    with False np show ?thesis by (simp add: sanIsCapture_def)
  qed
  have promo: "promotion mv \<noteq> 0 \<Longrightarrow> pieceCode E (pieceChar E (promotion mv)) = promotion mv"
      "promotion mv \<noteq> 0 \<Longrightarrow> \<not> isAnnotation (pieceChar E (promotion mv))"
    using moveOk_promotion [OF ok] np by simp_all
  have last: "\<not> isAnnotation (last ?core)"
    using promo(2) rankChar_neq(1-4) [OF bt(3,4)] by (simp add: isAnnotation_def)
  have len: "2 \<le> length ?core" by simp
  have c0: "?core ! 0 = fileChar (sq_file ?ssq) \<or> ?core ! 0 = fileChar (sq_file ?tsq)"
    by simp
  have first: "take 3 ?core \<noteq> ''O-O''" "?core ! 0 \<noteq> CHR ''x''" "?core ! 0 \<noteq> CHR ''P''"
    using fileChar_neq(1-3) [OF bs(1,2)] fileChar_neq(1-3) [OF bt(1,2)]
    by auto
  define l where "l = \<lparr>l_piece = Pawn E,
      l_sourceSq = (if ?capture \<noteq> NoPiece E then \<lparr>sq_file = sq_file ?ssq, sq_rank = - 1\<rparr>
                    else noSquare),
      l_targetSq = ?tsq, l_stringIsCapture = (?capture \<noteq> NoPiece E),
      l_it = (if ?capture \<noteq> NoPiece E then 4 else 2)\<rparr>"
  have sq: "sanSquares E b ?core = Some l"
    using sanSquares_pawn_push [OF lex d(4), of ?pro]
      sanSquares_pawn_capture [OF lex d(4) bs(1,5), of ?pro]
    by (simp add: l_def)
  have l: "l_piece l = Pawn E" "l_targetSq l = ?tsq" "l_stringIsCapture l = (?capture \<noteq> NoPiece E)"
    "l_it l = length (?pre @ ?tok)"
    by (simp_all add: l_def)
  have pr: "sanPromotion E ?core (l_it l) = Some (promotion mv)"
  proof (cases "promotion mv = 0")
    case True
    then show ?thesis
      using sanPromotion_end [of E "?pre @ ?tok"] np l(4) by simp
  next
    case False
    then show ?thesis
      using sanPromotion_eq [of "?pre @ ?tok" "l_it l" E "pieceChar E (promotion mv)"]
        promo(1) np l(4) by simp
  qed
  have cap: "sanIsCapture E b (l_piece l) (squareIndex E b (l_targetSq l)) = l_stringIsCapture l"
    using capture by (simp add: l d(6))
  have match: "sanMatches E b (l_piece l) (squareIndex E b (l_targetSq l)) (l_sourceSq l)
      (promotion mv) mv"
    using pawn nc by (simp add: sanMatches_def l d(6) l_def noSquare_def)
  have uniq: "\<forall>m \<in> set (legalMoves E b).
        sanMatches E b (l_piece l) (squareIndex E b (l_targetSq l)) (l_sourceSq l) (promotion mv) m
          \<longrightarrow> m = mv"
  proof (intro ballI impI)
    fix m
    assume m: "m \<in> set (legalMoves E b)"
      and mm: "sanMatches E b (l_piece l) (squareIndex E b (l_targetSq l)) (l_sourceSq l)
                 (promotion mv) m"
    from mm have f: "m_squares b (sourceSquare m) * m_sign b = Pawn E"
      "targetSquare m = targetSquare mv" "castlingSide m = - 1" "promotion m = promotion mv"
      by (simp_all add: sanMatches_def l d(6))
    have "(m_squares b (targetSquare m) = NoPiece E \<and> targetSquare m \<noteq> m_enpassantSquare b) \<or>
        sq_file (chessSquare E b (sourceSquare m)) = sq_file (chessSquare E b (sourceSquare mv))"
    proof (cases "?capture \<noteq> NoPiece E")
      case True
      with mm bs(1) show ?thesis by (auto simp: sanMatches_def l_def)
    next
      case False
      then show ?thesis using f(2) pawn0 sign np by (auto split: if_splits)
    qed
    from positionOk_pawns [OF pos m legal f(1) pawn f(2) this]
    show "m = mv" using f nc by (intro move_eqI) simp_all
  qed
  show ?thesis
    unfolding enc
    by (rule decode_core [OF len last mark_cases first sq cap pr positionOk_D(1) [OF pos]
          legal match uniq])
qed

lemma san_round_trip_castle:
  assumes pos: "positionOk E b"
    and legal: "mv \<in> set (legalMoves E b)"
    and castle: "castlingSide mv \<noteq> - 1"
  shows "moveFromSanString E b (fst (sanMoveString E b mv)) = mv"
proof -
  note ok = positionOk_D(2) [OF pos legal]
  note c = moveOk_castle [OF ok castle]
  note k = moveOk_king [OF ok c(1)]
  let ?mark = "if inCheck E (makeMove E b mv) (m_side (makeMove E b mv))
               then (if legalMoves E (makeMove E b mv) = [] then ''#'' else ''+'')
               else []"
  let ?core = "if castlingSide mv = QueenSide E then ''O-O-O'' else ''O-O''"
  have np: "m_squares b (sourceSquare mv) * m_sign b \<noteq> Pawn E" using c(1) k(1) by simp
  have enc: "fst (sanMoveString E b mv) = ?core @ ?mark"
    by (rule sanMoveString_castle [OF np c(1) castle])
  have chop: "chopAnnotations (?core @ ?mark) = ?core"
    by (rule chopAnnotations_mark [OF _ mark_cases]) (simp add: isAnnotation_def)
  have mv: "mv = Move (m_kingSquare b (m_side b))
                  (m_castleTarget b (m_side b) (castlingSide mv)) (NoPiece E) (castlingSide mv)"
    using k(2) c(4,5) by (intro move_eqI) (simp_all add: Move_def)
  show ?thesis
  proof (cases "castlingSide mv = QueenSide E")
    case True
    with chop have ch: "chopAnnotations (''O-O-O'' @ ?mark) = ''O-O-O''" by simp
    have "moveFromSanString E b (''O-O-O'' @ ?mark) =
        Move (m_kingSquare b (m_side b)) (m_castleTarget b (m_side b) (QueenSide E))
          (NoPiece E) (QueenSide E)"
      unfolding moveFromSanString_def Let_def ch by simp
    with True mv enc show ?thesis by simp
  next
    case False
    with c(2) have ks: "castlingSide mv = KingSide E" by simp
    from False chop have ch: "chopAnnotations (''O-O'' @ ?mark) = ''O-O''" by simp
    have "moveFromSanString E b (''O-O'' @ ?mark) =
        Move (m_kingSquare b (m_side b)) (m_castleTarget b (m_side b) (KingSide E))
          (NoPiece E) (KingSide E)"
      unfolding moveFromSanString_def Let_def ch by simp
    with False ks mv enc show ?thesis by simp
  qed
qed

lemma san_round_trip_piece_core:
  assumes lex: "lexiconOk E b" and pos: "positionOk E b"
    and legal: "mv \<in> set (legalMoves E b)"
    and notpawn: "m_squares b (sourceSquare mv) * m_sign b \<noteq> Pawn E"
    and nc: "castlingSide mv = - 1"
    and enc: "str =
       [pieceChar E (m_squares b (sourceSquare mv) * m_sign b)] @
       (if nf then [fileChar (sq_file (chessSquare E b (sourceSquare mv)))] else []) @
       (if nr then [rankChar (sq_rank (chessSquare E b (sourceSquare mv)))] else []) @
       (if m_squares b (targetSquare mv) \<noteq> NoPiece E then ''x'' else []) @
       [fileChar (sq_file (chessSquare E b (targetSquare mv))),
        rankChar (sq_rank (chessSquare E b (targetSquare mv)))] @ mark"
    and mark: "mark = [] \<or> mark = ''#'' \<or> mark = ''+''"
    and uniq: "\<And>m. m \<in> set (legalMoves E b) \<Longrightarrow>
        m_squares b (sourceSquare m) * m_sign b = m_squares b (sourceSquare mv) * m_sign b \<Longrightarrow>
        targetSquare m = targetSquare mv \<Longrightarrow>
        (nr \<Longrightarrow> sq_rank (chessSquare E b (sourceSquare m)) =
                 sq_rank (chessSquare E b (sourceSquare mv))) \<Longrightarrow>
        (nf \<Longrightarrow> sq_file (chessSquare E b (sourceSquare m)) =
                 sq_file (chessSquare E b (sourceSquare mv))) \<Longrightarrow>
        sourceSquare m = sourceSquare mv"
  shows "moveFromSanString E b str = mv"
proof -
  note ok = positionOk_D(2) [OF pos legal]
  note d = moveOk_D [OF ok]
  note p = moveOk_piece [OF ok notpawn]
  let ?piece = "m_squares b (sourceSquare mv) * m_sign b"
  let ?ssq = "chessSquare E b (sourceSquare mv)"
  let ?tsq = "chessSquare E b (targetSquare mv)"
  let ?cap = "m_squares b (targetSquare mv) \<noteq> NoPiece E"
  let ?core = "[pieceChar E ?piece] @
       (if nf then [fileChar (sq_file ?ssq)] else []) @
       (if nr then [rankChar (sq_rank ?ssq)] else []) @
       (if ?cap then ''x'' else []) @
       [fileChar (sq_file ?tsq), rankChar (sq_rank ?tsq)]"
  have np: "NoPiece E = 0" using lex by (simp add: lexiconOk_def)
  have sign: "m_sign b \<noteq> 0" using d(7) by auto
  note bs = valid_bounds [OF lex d(3)] and bt = valid_bounds [OF lex d(4)]
  have str: "str = ?core @ mark" using enc by simp
  define l where "l = \<lparr>l_piece = ?piece,
                l_sourceSq = \<lparr>sq_file = (if nf then sq_file ?ssq else - 1),
                              sq_rank = (if nr then sq_rank ?ssq else - 1)\<rparr>,
                l_targetSq = ?tsq, l_stringIsCapture = ?cap,
                l_it = 3 + (if nf then 1 else 0) + (if nr then 1 else 0) + (if ?cap then 1 else 0)\<rparr>"
  have sq: "sanSquares E b ?core = Some l"
    unfolding l_def by (rule sanSquares_piece [OF lex d(4) d(3) p(1) d(7)])
  have l: "l_piece l = ?piece" "l_targetSq l = ?tsq" "l_stringIsCapture l = ?cap"
    "l_it l = length ?core"
    by (simp_all add: l_def)
  have last: "\<not> isAnnotation (last ?core)"
    using rankChar_neq(1-4) [OF bt(3,4)] by (simp add: isAnnotation_def)
  have len: "2 \<le> length ?core" by simp
  have first: "take 3 ?core \<noteq> ''O-O''" "?core ! 0 \<noteq> CHR ''x''" "?core ! 0 \<noteq> CHR ''P''"
    using p(2-4) by auto
  have pr: "sanPromotion E ?core (l_it l) = Some (promotion mv)"
    unfolding l(4) p(5) by (rule sanPromotion_end)
  have "m_squares b (targetSquare mv) * m_sign b \<le> 0" using d(8) [OF nc] .
  then have "m_squares b (targetSquare mv) * m_sign b < 0 \<longleftrightarrow> m_squares b (targetSquare mv) \<noteq> 0"
    using sign by (auto simp: less_le)
  then have cap: "sanIsCapture E b (l_piece l) (squareIndex E b (l_targetSq l)) = l_stringIsCapture l"
    using notpawn np by (simp add: sanIsCapture_def l d(6))
  have match: "sanMatches E b (l_piece l) (squareIndex E b (l_targetSq l)) (l_sourceSq l)
      (promotion mv) mv"
    using nc by (simp add: sanMatches_def l d(6) l_def)
  have uniq': "\<forall>m \<in> set (legalMoves E b).
        sanMatches E b (l_piece l) (squareIndex E b (l_targetSq l)) (l_sourceSq l) (promotion mv) m
          \<longrightarrow> m = mv"
  proof (intro ballI impI)
    fix m
    assume m: "m \<in> set (legalMoves E b)"
      and mm: "sanMatches E b (l_piece l) (squareIndex E b (l_targetSq l)) (l_sourceSq l)
                 (promotion mv) m"
    from mm have f: "m_squares b (sourceSquare m) * m_sign b = ?piece"
      "targetSquare m = targetSquare mv" "castlingSide m = - 1" "promotion m = promotion mv"
      by (simp_all add: sanMatches_def l d(6))
    from mm bs(3) have r: "nr \<Longrightarrow> sq_rank (chessSquare E b (sourceSquare m)) = sq_rank ?ssq"
      by (auto simp: sanMatches_def l_def)
    from mm bs(1) have fl: "nf \<Longrightarrow> sq_file (chessSquare E b (sourceSquare m)) = sq_file ?ssq"
      by (auto simp: sanMatches_def l_def)
    from uniq [OF m f(1,2) r fl]
    show "m = mv" using f nc by (intro move_eqI) simp_all
  qed
  show ?thesis
    unfolding str
    by (rule decode_core [OF len last mark first sq cap pr positionOk_D(1) [OF pos]
          legal match uniq'])
qed

lemma san_round_trip_king:
  assumes lex: "lexiconOk E b" and pos: "positionOk E b"
    and legal: "mv \<in> set (legalMoves E b)"
    and undo: "undoMove E (makeMove E b mv) = b"
    and king: "m_squares b (sourceSquare mv) * m_sign b = King E"
    and nc: "castlingSide mv = - 1"
  shows "moveFromSanString E b (fst (sanMoveString E b mv)) = mv"
proof -
  note ok = positionOk_D(2) [OF pos legal]
  note k = moveOk_king [OF ok king]
  have np: "m_squares b (sourceSquare mv) * m_sign b \<noteq> Pawn E" using king k(1) by simp
  note p = moveOk_piece [OF ok np]
  have np0: "NoPiece E = 0" using lex by (simp add: lexiconOk_def)
  show ?thesis
  proof (rule san_round_trip_piece_core [OF lex pos legal np nc _ mark_cases,
        where nf = False and nr = False])
    show "fst (sanMoveString E b mv) =
       [pieceChar E (m_squares b (sourceSquare mv) * m_sign b)] @
       (if False then [fileChar (sq_file (chessSquare E b (sourceSquare mv)))] else []) @
       (if False then [rankChar (sq_rank (chessSquare E b (sourceSquare mv)))] else []) @
       (if m_squares b (targetSquare mv) \<noteq> NoPiece E then ''x'' else []) @
       [fileChar (sq_file (chessSquare E b (targetSquare mv))),
        rankChar (sq_rank (chessSquare E b (targetSquare mv)))] @
       (if inCheck E (makeMove E b mv) (m_side (makeMove E b mv))
        then (if legalMoves E (makeMove E b mv) = [] then ''#'' else ''+'')
        else [])"
      unfolding sanMoveString_king [OF np king nc undo] sanTail_explicit
      using p(5) np0 king
      by (simp add: squareString_eq [OF lex moveOk_D(4) [OF ok]])
  next
    fix m
    assume m: "m \<in> set (legalMoves E b)"
      and "m_squares b (sourceSquare m) * m_sign b = m_squares b (sourceSquare mv) * m_sign b"
    then have "m_squares b (sourceSquare m) * m_sign b = King E" using king by simp
    from moveOk_king(2) [OF positionOk_D(2) [OF pos m] this] k(2)
    show "sourceSquare m = sourceSquare mv" by simp
  qed
qed

lemma san_round_trip_piece:
  assumes lex: "lexiconOk E b" and pos: "positionOk E b"
    and legal: "mv \<in> set (legalMoves E b)"
    and undo: "undoMove E (makeMove E b mv) = b"
    and np: "m_squares b (sourceSquare mv) * m_sign b \<noteq> Pawn E"
    and nk: "m_squares b (sourceSquare mv) * m_sign b \<noteq> King E"
  shows "moveFromSanString E b (fst (sanMoveString E b mv)) = mv"
proof -
  note ok = positionOk_D(2) [OF pos legal]
  note d = moveOk_D [OF ok]
  note p = moveOk_piece [OF ok np]
  have nc: "castlingSide mv = - 1" using moveOk_not_castle [OF ok nk] .
  have np0: "NoPiece E = 0" using lex by (simp add: lexiconOk_def)
  let ?piece = "m_squares b (sourceSquare mv) * m_sign b"
  let ?ssq = "chessSquare E b (sourceSquare mv)"
  define nf where "nf \<longleftrightarrow> (\<exists>it \<in> set (legalMoves E b). sourceSquare it \<noteq> sourceSquare mv \<and>
          m_squares b (sourceSquare it) * m_sign b = ?piece \<and> targetSquare it = targetSquare mv \<and>
          sq_file (chessSquare E b (sourceSquare it)) \<noteq> sq_file ?ssq)"
  define nr where "nr \<longleftrightarrow> (\<exists>it \<in> set (legalMoves E b). sourceSquare it \<noteq> sourceSquare mv \<and>
          m_squares b (sourceSquare it) * m_sign b = ?piece \<and> targetSquare it = targetSquare mv \<and>
          sq_file (chessSquare E b (sourceSquare it)) = sq_file ?ssq \<and>
          sq_rank (chessSquare E b (sourceSquare it)) \<noteq> sq_rank ?ssq)"
  have need: "disambiguate E b (sourceSquare mv) (targetSquare mv) ?piece ?ssq
                (legalMoves E b) (False, False) = (nf, nr)"
    unfolding disambiguate_eq nf_def nr_def by simp
  show ?thesis
  proof (rule san_round_trip_piece_core [OF lex pos legal np nc _ mark_cases,
        where nf = nf and nr = nr])
    show "fst (sanMoveString E b mv) =
       [pieceChar E (m_squares b (sourceSquare mv) * m_sign b)] @
       (if nf then [fileChar (sq_file (chessSquare E b (sourceSquare mv)))] else []) @
       (if nr then [rankChar (sq_rank (chessSquare E b (sourceSquare mv)))] else []) @
       (if m_squares b (targetSquare mv) \<noteq> NoPiece E then ''x'' else []) @
       [fileChar (sq_file (chessSquare E b (targetSquare mv))),
        rankChar (sq_rank (chessSquare E b (targetSquare mv)))] @
       (if inCheck E (makeMove E b mv) (m_side (makeMove E b mv))
        then (if legalMoves E (makeMove E b mv) = [] then ''#'' else ''+'')
        else [])"
      unfolding sanMoveString_piece [OF np nk undo] Let_def need fst_conv snd_conv
        sanTail_explicit
      using p(5) np0
      by (simp add: squareString_eq [OF lex d(4)])
  next
    fix m
    assume m: "m \<in> set (legalMoves E b)"
      and pc: "m_squares b (sourceSquare m) * m_sign b = m_squares b (sourceSquare mv) * m_sign b"
      and tg: "targetSquare m = targetSquare mv"
      and r: "nr \<Longrightarrow> sq_rank (chessSquare E b (sourceSquare m)) = sq_rank ?ssq"
      and f: "nf \<Longrightarrow> sq_file (chessSquare E b (sourceSquare m)) = sq_file ?ssq"
    show "sourceSquare m = sourceSquare mv"
    proof (rule ccontr)
      assume ne: "sourceSquare m \<noteq> sourceSquare mv"
      have sfile: "sq_file (chessSquare E b (sourceSquare m)) = sq_file ?ssq"
      proof (rule ccontr)
        assume "sq_file (chessSquare E b (sourceSquare m)) \<noteq> sq_file ?ssq"
        with m ne pc tg have nf unfolding nf_def by blast
        with f \<open>sq_file (chessSquare E b (sourceSquare m)) \<noteq> sq_file ?ssq\<close>
        show False by simp
      qed
      have srank: "sq_rank (chessSquare E b (sourceSquare m)) = sq_rank ?ssq"
      proof (rule ccontr)
        assume "sq_rank (chessSquare E b (sourceSquare m)) \<noteq> sq_rank ?ssq"
        with m ne pc tg sfile have nr unfolding nr_def by blast
        with r \<open>sq_rank (chessSquare E b (sourceSquare m)) \<noteq> sq_rank ?ssq\<close>
        show False by simp
      qed
      from sfile srank have "chessSquare E b (sourceSquare m) = ?ssq" by simp
      then have "squareIndex E b (chessSquare E b (sourceSquare m)) = squareIndex E b ?ssq"
        by simp
      with moveOk_D(5) [OF positionOk_D(2) [OF pos m]] d(5) ne show False by simp
    qed
  qed
qed

lemma san_round_trip:
  assumes lex: "lexiconOk E b" and pos: "positionOk E b"
    and legal: "mv \<in> set (legalMoves E b)"
    and undo: "undoMove E (makeMove E b mv) = b"
  shows "moveFromSanString E b (fst (sanMoveString E b mv)) = mv"
proof -
  let ?piece = "m_squares b (sourceSquare mv) * m_sign b"
  consider (pawn) "?piece = Pawn E"
    | (castle) "castlingSide mv \<noteq> - 1"
    | (king) "?piece = King E" "castlingSide mv = - 1"
    | (other) "?piece \<noteq> Pawn E" "?piece \<noteq> King E"
    by blast
  then show ?thesis
  proof cases
    case pawn
    then show ?thesis by (rule san_round_trip_pawn [OF lex pos legal undo])
  next
    case castle
    then show ?thesis by (rule san_round_trip_castle [OF pos legal])
  next
    case king
    then show ?thesis by (rule san_round_trip_king [OF lex pos legal undo])
  next
    case other
    then show ?thesis by (rule san_round_trip_piece [OF lex pos legal undo])
  qed
qed

subsection \<open>The round trip through LAN\<close>

text \<open>
  The SAN decoder, tried first, rejects a LAN string: it reads the source square as
  a pawn's target, and no legal move goes to a square that holds a piece of the side
  to move. The LAN decoder then reads the move back.
\<close>

lemma lan_string:
  assumes lex: "lexiconOk E b" and ok: "moveOk E b mv"
  shows "longAlgebraicMoveString E b mv =
     [fileChar (sq_file (chessSquare E b (sourceSquare mv))),
      rankChar (sq_rank (chessSquare E b (sourceSquare mv)))] @
     [fileChar (sq_file (chessSquare E b (targetSquare mv))),
      rankChar (sq_rank (chessSquare E b (targetSquare mv)))] @
     (if promotion mv \<noteq> NoPiece E then [toLower E (pieceChar E (promotion mv))] else [])"
  using squareString_eq [OF lex moveOk_D(3) [OF ok]] squareString_eq [OF lex moveOk_D(4) [OF ok]]
  by (simp add: longAlgebraicMoveString_def Let_def)

lemma san_rejects_lan:
  assumes lex: "lexiconOk E b" and pos: "positionOk E b"
    and legal: "mv \<in> set (legalMoves E b)"
  shows "moveFromSanString E b (longAlgebraicMoveString E b mv) = Move2 E 0 0"
proof -
  note ok = positionOk_D(2) [OF pos legal]
  note d = moveOk_D [OF ok]
  let ?ssq = "chessSquare E b (sourceSquare mv)"
  let ?tsq = "chessSquare E b (targetSquare mv)"
  let ?pro = "if promotion mv \<noteq> NoPiece E then [toLower E (pieceChar E (promotion mv))] else []"
  let ?rest = "[fileChar (sq_file ?tsq), rankChar (sq_rank ?tsq)] @ ?pro"
  let ?s = "[fileChar (sq_file ?ssq), rankChar (sq_rank ?ssq)] @ ?rest"
  note bs = valid_bounds [OF lex d(3)] and bt = valid_bounds [OF lex d(4)]
  have s: "longAlgebraicMoveString E b mv = ?s" by (rule lan_string [OF lex ok])
  have last: "\<not> isAnnotation (last ?s)"
    using moveOk_promotion(4) [OF ok] rankChar_neq(1-4) [OF bt(3,4)]
    by (simp add: isAnnotation_def)
  have chop: "?s = chopAnnotations ?s"
    using chopAnnotations_id [of ?s] last by simp
  have first: "take 3 ?s \<noteq> ''O-O''" "?s ! 0 \<noteq> CHR ''x''" "?s ! 0 \<noteq> CHR ''P''"
    using fileChar_neq(1-3) [OF bs(1,2)] by auto
  define l where "l = \<lparr>l_piece = Pawn E, l_sourceSq = noSquare, l_targetSq = ?ssq,
                  l_stringIsCapture = False, l_it = 2\<rparr>"
  have sq: "sanSquares E b ?s = Some l"
    unfolding l_def by (rule sanSquares_pawn_push [OF lex d(3)])
  have l: "l_piece l = Pawn E" "l_targetSq l = ?ssq" "l_stringIsCapture l = False"
    "l_sourceSq l = noSquare"
    by (simp_all add: l_def)
  have none: "filter (sanMatches E b (Pawn E) (sourceSquare mv) noSquare promo) (legalMoves E b) = []"
    for promo
  proof -
    have "\<not> sanMatches E b (Pawn E) (sourceSquare mv) noSquare promo m"
      if m: "m \<in> set (legalMoves E b)" for m
    proof
      assume mm: "sanMatches E b (Pawn E) (sourceSquare mv) noSquare promo m"
      then have "targetSquare m = sourceSquare mv" "castlingSide m = - 1"
        by (simp_all add: sanMatches_def)
      with moveOk_D(8) [OF positionOk_D(2) [OF pos m]] d(7) show False by simp
    qed
    then show ?thesis by (simp add: filter_empty_conv)
  qed
  have len: "2 \<le> length ?s" by simp
  have "moveFromSanString E b ?s = Move2 E 0 0"
    unfolding moveFromSanString_parsed [OF len chop len first sq] l d(5)
    by (simp add: sanFindMatch_None none split: option.splits)
  with s show ?thesis by simp
qed

lemma lan_decodes:
  assumes lex: "lexiconOk E b" and ok: "moveOk E b mv"
    and geo: "lanGeometry E b mv"
    and pre: "castlingSide mv = - 1 \<or> \<not> m_isRandom b"
  shows "moveFromLongAlgebraicString E b (longAlgebraicMoveString E b mv) = mv"
proof -
  note d = moveOk_D [OF ok]
  let ?ssq = "chessSquare E b (sourceSquare mv)"
  let ?tsq = "chessSquare E b (targetSquare mv)"
  let ?pro = "if promotion mv \<noteq> NoPiece E then [toLower E (pieceChar E (promotion mv))] else []"
  let ?s = "[fileChar (sq_file ?ssq), rankChar (sq_rank ?ssq)] @
            [fileChar (sq_file ?tsq), rankChar (sq_rank ?tsq)] @ ?pro"
  let ?piece = "m_squares b (sourceSquare mv) * m_sign b"
  let ?diff = "targetSquare mv - sourceSquare mv"
  have s: "longAlgebraicMoveString E b mv = ?s" by (rule lan_string [OF lex ok])
  have m0: "squareOf E (mid ?s 0 2) = ?ssq"
    using squareOf_token [OF lex d(3)] by (simp add: mid_def)
  have m2: "squareOf E (mid ?s 2 2) = ?tsq"
    using squareOf_token [OF lex d(4)] by (simp add: mid_def)
  have cs: "(if ?piece = King E
             then (if ?diff = - 2 \<or> ?diff = - 3 then QueenSide E
                   else if ?diff = 2 \<or> ?diff = 3 then KingSide E else - 1)
             else - 1) = castlingSide mv"
  proof (cases "castlingSide mv = - 1")
    case True
    with geo show ?thesis by (auto simp: lanGeometry_def Let_def)
  next
    case False
    note c = moveOk_castle [OF ok False]
    from False pre have "\<not> m_isRandom b" by simp
    with geo c(1) have g: "castlingSide mv = QueenSide E \<longrightarrow> ?diff = - 2 \<or> ?diff = - 3"
      "castlingSide mv = KingSide E \<longrightarrow> ?diff = 2 \<or> ?diff = 3"
      by (simp_all add: lanGeometry_def Let_def)
    from c(2) show ?thesis
    proof
      assume "castlingSide mv = KingSide E"
      with g(2) c(1) show ?thesis by auto
    next
      assume "castlingSide mv = QueenSide E"
      with g(1) c(1) show ?thesis by auto
    qed
  qed
  have "moveFromLongAlgebraicString E b ?s = mv"
  proof (cases "promotion mv = NoPiece E")
    case True
    then show ?thesis
      unfolding moveFromLongAlgebraicString_def Let_def m0 m2 d(5,6) cs
      using d(3,4) by (simp add: Move_def)
  next
    case False
    then show ?thesis
      unfolding moveFromLongAlgebraicString_def Let_def m0 m2 d(5,6) cs
      using d(3,4) moveOk_promotion(3) [OF ok False] by (simp add: Move_def)
  qed
  with s show ?thesis by simp
qed

lemma round_trip:
  assumes lex: "lexiconOk E b" and pos: "positionOk E b"
    and legal: "mv \<in> set (legalMoves E b)"
    and undo: "undoMove E (makeMove E b mv) = b"
  shows "moveFromString E (snd (moveString E b mv StandardAlgebraic))
           (fst (moveString E b mv StandardAlgebraic)) = mv"
    and "lanGeometry E b mv \<Longrightarrow> castlingSide mv = - 1 \<or> \<not> m_isRandom b \<Longrightarrow>
         moveFromString E (snd (moveString E b mv LongAlgebraic))
           (fst (moveString E b mv LongAlgebraic)) = mv"
proof -
  note ok = positionOk_D(2) [OF pos legal]
  note d = moveOk_D [OF ok]
  have "moveFromString E b (fst (sanMoveString E b mv)) = mv"
    using san_round_trip [OF lex pos legal undo] d(1,2)
    by (simp add: moveFromString_def Let_def)
  then show "moveFromString E (snd (moveString E b mv StandardAlgebraic))
           (fst (moveString E b mv StandardAlgebraic)) = mv"
    by (simp add: moveString_def sanMoveString_snd undo)
  assume geo: "lanGeometry E b mv" and pre: "castlingSide mv = - 1 \<or> \<not> m_isRandom b"
  have "moveFromString E b (longAlgebraicMoveString E b mv) = mv"
    using san_rejects_lan [OF lex pos legal] lan_decodes [OF lex ok geo pre]
    by (simp add: moveFromString_def Let_def Move2_def Move_def)
  with pre show "moveFromString E (snd (moveString E b mv LongAlgebraic))
           (fst (moveString E b mv LongAlgebraic)) = mv"
    by (auto simp: moveString_def)
qed

subsection \<open>The sample environment meets the assumptions\<close>

lemma of_char_bound: "(of_char c :: int) < 256"
proof -
  have "(of_char c :: int) = of_char c mod 256" by simp
  also have "\<dots> < 256" by (rule pos_mod_bound) simp
  finally show ?thesis .
qed

lemma char_of_toAscii: "0 \<le> toAscii c \<Longrightarrow> char_of (toAscii c) = c"
  using of_char_bound [of c] by (auto simp: toAscii_def Let_def split: if_splits)

lemma sample_lexicon:
  assumes E: "NoPiece E = 0" "squareString E = sampleSquareString"
      "squareOf E = sampleSquareOf" "pieceCode E = samplePieceCode"
    and dims: "m_width b = 8" "m_height b = 8"
  shows "lexiconOk E b"
proof -
  have 1: "squareString E sq = [char_of (97 + sq_file sq), char_of (49 + sq_rank sq)] \<and>
           squareOf E (squareString E sq) = sq" if "isValidSquare b sq" for sq
  proof -
    from that have b: "0 \<le> sq_file sq" "sq_file sq < 23" "0 \<le> sq_rank sq" "sq_rank sq < 9"
      by (simp_all add: isValidSquare_def dims)
    show ?thesis
      using toAscii_fileChar [OF b(1,2)] toAscii_rankChar [OF b(3,4)]
      by (simp add: E sampleSquareString_def sampleSquareOf_def fileChar_def rankChar_def)
  qed
  have 2: "squareString E (squareOf E s) = s" if v: "isValidSquare b (squareOf E s)" for s
  proof (cases "length s = 2")
    case False
    with v show ?thesis by (simp add: E sampleSquareOf_def)
  next
    case True
    then obtain c1 c2 where s: "s = [c1, c2]"
      by (cases s; cases "tl s") auto
    from v have "97 \<le> toAscii c1" "49 \<le> toAscii c2"
      by (simp_all add: s E sampleSquareOf_def isValidSquare_def)
    then have "char_of (toAscii c1) = c1" "char_of (toAscii c2) = c2"
      by (simp_all add: char_of_toAscii)
    then show ?thesis
      by (simp add: s E sampleSquareOf_def sampleSquareString_def)
  qed
  have "\<forall>f \<in> set [0..7]. samplePieceCode (char_of (97 + f)) \<le> 0"
    by code_simp
  then have 3: "pieceCode E (char_of (97 + f)) \<le> 0" if "0 \<le> f \<and> f < m_width b" for f
    using that by (simp add: dims E)
  have "m_width b \<le> 23" "m_height b \<le> 9" by (simp_all add: dims)
  then show ?thesis
    unfolding lexiconOk_def using E(1) 1 2 3 by blast
qed

lemma sample_lexiconOk: "lexiconOk sampleEnv samplePosition"
  by (rule sample_lexicon) (simp_all add: sampleEnv_def samplePosition_def)

lemma sampleCastle_lexiconOk: "lexiconOk sampleCastleEnv sampleCastlePosition"
  by (rule sample_lexicon)
     (simp_all add: sampleCastleEnv_def sampleEnv_def sampleCastlePosition_def)

lemma sample_positionOk: "positionOk sampleEnv samplePosition"
  by code_simp

lemma sample_lanGeometry: "\<forall>mv \<in> set (legalMoves sampleEnv samplePosition). lanGeometry sampleEnv samplePosition mv"
  by code_simp

lemma sampleCastle_positionOk: "positionOk sampleCastleEnv sampleCastlePosition"
  by code_simp

lemma sampleCastle_lanGeometry:
  "\<forall>mv \<in> set (legalMoves sampleCastleEnv sampleCastlePosition).
     lanGeometry sampleCastleEnv sampleCastlePosition mv"
  by code_simp

lemma sample_undo:
  "undoMove sampleEnv (makeMove sampleEnv samplePosition mv) = samplePosition"
  "undoMove sampleCastleEnv (makeMove sampleCastleEnv sampleCastlePosition mv) =
     sampleCastlePosition"
  by (simp_all add: sampleCastleEnv_def sampleEnv_def sampleMakeMove_def sampleUndoMove_def
      samplePosition_def sampleCastlePosition_def)

subsection \<open>The round trip\<close>

text \<open>
  Claim C1. In a position that meets the assumptions on the lexicon, the board and
  the move generator, on a board that \<^verbatim>\<open>undoMove\<close> restores, every legal move is
  decoded by \<^verbatim>\<open>moveFromString\<close> from the string \<^verbatim>\<open>moveString\<close> writes for it in
  standard algebraic notation; and, when the move is not a castling move or the game
  has no randomized start (and the castling geometry is the one the LAN decoder
  infers from), also from the string \<^verbatim>\<open>moveString\<close> writes in long algebraic
  notation.
\<close>

theorem notation_round_trip:
  assumes "lexiconOk E b" and "positionOk E b"
    and "mv \<in> set (legalMoves E b)"
    and "undoMove E (makeMove E b mv) = b"
  shows "moveFromString E (snd (moveString E b mv StandardAlgebraic))
           (fst (moveString E b mv StandardAlgebraic)) = mv \<and>
         (lanGeometry E b mv \<and> (castlingSide mv = - 1 \<or> \<not> m_isRandom b) \<longrightarrow>
          moveFromString E (snd (moveString E b mv LongAlgebraic))
            (fst (moveString E b mv LongAlgebraic)) = mv)"
  using round_trip [OF assms] by blast

theorem notation_round_trip_witness:
  "fst (moveString sampleEnv samplePosition (Move 35 25 5 (- 1)) StandardAlgebraic) = ''e8=Q#'' \<and>
   moveFromString sampleEnv samplePosition ''e8=Q#'' = Move 35 25 5 (- 1) \<and>
   fst (moveString sampleEnv samplePosition (Move 35 25 5 (- 1)) LongAlgebraic) = ''e7e8q'' \<and>
   moveFromString sampleEnv samplePosition ''e7e8q'' = Move 35 25 5 (- 1) \<and>
   fst (moveString sampleCastleEnv sampleCastlePosition (Move 95 97 0 1) StandardAlgebraic)
     = ''O-O'' \<and>
   moveFromString sampleCastleEnv sampleCastlePosition ''O-O'' = Move 95 97 0 1 \<and>
   fst (moveString sampleCastleEnv sampleCastlePosition (Move 95 97 0 1) LongAlgebraic)
     = ''e1g1'' \<and>
   moveFromString sampleCastleEnv sampleCastlePosition ''e1g1'' = Move 95 97 0 1"
proof -
  let ?E = sampleEnv and ?b = samplePosition and ?mv = "Move 35 25 5 (- 1)"
  let ?E' = sampleCastleEnv and ?b' = sampleCastlePosition and ?mv' = "Move 95 97 0 1"
  have legal: "?mv \<in> set (legalMoves ?E ?b)" "?mv' \<in> set (legalMoves ?E' ?b')"
    by code_simp+
  have geo: "lanGeometry ?E ?b ?mv" "lanGeometry ?E' ?b' ?mv'"
    using sample_lanGeometry sampleCastle_lanGeometry legal by blast+
  have pre: "castlingSide ?mv = - 1 \<or> \<not> m_isRandom ?b"
    "castlingSide ?mv' = - 1 \<or> \<not> m_isRandom ?b'"
    by (simp_all add: Move_def sampleCastlePosition_def)
  have s: "fst (moveString ?E ?b ?mv StandardAlgebraic) = ''e8=Q#''"
    "fst (moveString ?E ?b ?mv LongAlgebraic) = ''e7e8q''"
    "fst (moveString ?E' ?b' ?mv' StandardAlgebraic) = ''O-O''"
    "fst (moveString ?E' ?b' ?mv' LongAlgebraic) = ''e1g1''"
    by code_simp+
  have b: "snd (moveString ?E ?b ?mv StandardAlgebraic) = ?b"
    "snd (moveString ?E ?b ?mv LongAlgebraic) = ?b"
    "snd (moveString ?E' ?b' ?mv' StandardAlgebraic) = ?b'"
    "snd (moveString ?E' ?b' ?mv' LongAlgebraic) = ?b'"
    by (simp_all add: moveString_def sanMoveString_snd sample_undo)
  note r = notation_round_trip [OF sample_lexiconOk sample_positionOk legal(1) sample_undo(1)]
  note r' = notation_round_trip
    [OF sampleCastle_lexiconOk sampleCastle_positionOk legal(2) sample_undo(2)]
  from r have 1: "moveFromString ?E ?b ''e8=Q#'' = ?mv"
    unfolding s b by blast
  from r geo(1) pre(1) have 2: "moveFromString ?E ?b ''e7e8q'' = ?mv"
    unfolding s b by blast
  from r' have 3: "moveFromString ?E' ?b' ''O-O'' = ?mv'"
    unfolding s b by blast
  from r' geo(2) pre(2) have 4: "moveFromString ?E' ?b' ''e1g1'' = ?mv'"
    unfolding s b by blast
  from s 1 2 3 4 show ?thesis by (intro conjI)
qed

end
